theory Spec2Isabelle
  imports Complex_Main "HOL-Library.Word"
begin

unbundle bit_operations_syntax

section \<open>Bytes, Python strings and errors\<close>

text \<open>
  A Python \<open>bytes\<close> object is a list of 8-bit words.  A Python \<open>str\<close> is a list of
  Unicode code points (Isabelle's \<open>char\<close> is a byte, so it cannot hold one).
  The exceptions the parser can meet are values of \<open>pyerr\<close>.
\<close>

type_synonym byte = "8 word"
type_synonym bytes = "byte list"
type_synonym pystr = "nat list"

datatype pyerr = StructError | UnicodeDecodeError | RecursionError

text \<open>Little-endian value of a byte string, and its two's complement reading.\<close>

fun le_uint :: "bytes \<Rightarrow> nat" where
  "le_uint [] = 0"
| "le_uint (b # bs) = unat b + 256 * le_uint bs"

definition to_signed :: "nat \<Rightarrow> nat \<Rightarrow> int" where
  "to_signed bits u = (if u < 2 ^ (bits - 1) then int u else int u - 2 ^ bits)"

subsection \<open>UTF-8\<close>

text \<open>
  One step of CPython's UTF-8 decoder on a non-empty input: either a code point and the
  number of bytes it took, or an error with the number of bytes the error covers
  (the bytes that \<open>errors='replace'\<close> turns into one U+FFFD).
\<close>

datatype utf8_res = Ok nat nat | Bad nat

definition is_cont :: "nat \<Rightarrow> bool" where
  "is_cont b = (128 \<le> b \<and> b < 192)"

definition second_ok3 :: "nat \<Rightarrow> nat \<Rightarrow> bool" where
  "second_ok3 b0 b1 = (is_cont b1 \<and> (b0 = 224 \<longrightarrow> 160 \<le> b1) \<and> (b0 = 237 \<longrightarrow> b1 < 160))"

definition second_ok4 :: "nat \<Rightarrow> nat \<Rightarrow> bool" where
  "second_ok4 b0 b1 = (is_cont b1 \<and> (b0 = 240 \<longrightarrow> 144 \<le> b1) \<and> (b0 = 244 \<longrightarrow> b1 < 144))"

fun utf8_step :: "nat \<Rightarrow> nat list \<Rightarrow> utf8_res" where
  "utf8_step b0 rest =
     (if b0 < 128 then Ok b0 1
      else if b0 < 194 then Bad 1
      else if b0 < 224 then
        (case rest of
           [] \<Rightarrow> Bad 1
         | b1 # _ \<Rightarrow> if is_cont b1 then Ok ((b0 - 192) * 64 + (b1 - 128)) 2 else Bad 1)
      else if b0 < 240 then
        (case rest of
           [] \<Rightarrow> Bad 1
         | b1 # rest1 \<Rightarrow>
             if \<not> second_ok3 b0 b1 then Bad 1
             else (case rest1 of
                     [] \<Rightarrow> Bad 2
                   | b2 # _ \<Rightarrow>
                       if is_cont b2
                       then Ok ((b0 - 224) * 4096 + (b1 - 128) * 64 + (b2 - 128)) 3
                       else Bad 2))
      else if b0 < 245 then
        (case rest of
           [] \<Rightarrow> Bad 1
         | b1 # rest1 \<Rightarrow>
             if \<not> second_ok4 b0 b1 then Bad 1
             else (case rest1 of
                     [] \<Rightarrow> Bad 2
                   | b2 # rest2 \<Rightarrow>
                       if \<not> is_cont b2 then Bad 2
                       else (case rest2 of
                               [] \<Rightarrow> Bad 3
                             | b3 # _ \<Rightarrow>
                                 if is_cont b3
                                 then Ok ((b0 - 240) * 262144 + (b1 - 128) * 4096
                                          + (b2 - 128) * 64 + (b3 - 128)) 4
                                 else Bad 3)))
      else Bad 1)"

text \<open>\<open>data.decode('utf-8')\<close>: strict, raises on the first error.\<close>

fun utf8_strict :: "nat list \<Rightarrow> pyerr + pystr" where
  "utf8_strict [] = Inr []"
| "utf8_strict (b0 # rest) =
     (case utf8_step b0 rest of
        Bad k \<Rightarrow> Inl UnicodeDecodeError
      | Ok c k \<Rightarrow>
          (case utf8_strict (drop (k - 1) rest) of
             Inl e \<Rightarrow> Inl e
           | Inr cs \<Rightarrow> Inr (c # cs)))"

text \<open>\<open>data.decode('utf-8', errors='replace')\<close>: never raises.\<close>

fun utf8_replace :: "nat list \<Rightarrow> pystr" where
  "utf8_replace [] = []"
| "utf8_replace (b0 # rest) =
     (case utf8_step b0 rest of
        Bad k \<Rightarrow> 65533 # utf8_replace (drop (k - 1) rest)
      | Ok c k \<Rightarrow> c # utf8_replace (drop (k - 1) rest))"

definition decode_strict :: "bytes \<Rightarrow> pyerr + pystr" where
  "decode_strict bs = utf8_strict (map unat bs)"

definition decode_replace :: "bytes \<Rightarrow> pystr" where
  "decode_replace bs = utf8_replace (map unat bs)"

section \<open>The binary reader\<close>

text \<open>
  A \<open>BytesIO\<close>: the buffer and the cursor.  \<open>reader.read(n)\<close> returns at most \<open>n\<close>
  bytes from the cursor and advances by what it returned; it never raises, and a
  negative \<open>n\<close> reads to the end.
\<close>

record reader =
  buf :: bytes
  pos :: nat

definition reader_read :: "int \<Rightarrow> reader \<Rightarrow> bytes \<times> reader" where
  "reader_read n r =
     (let avail = length (buf r) - pos r;
          k = (if n < 0 \<or> int avail < n then avail else nat n)
      in (take k (drop (pos r) (buf r)), r\<lparr>pos := pos r + k\<rparr>))"

text \<open>
  A parser step takes the reader and returns an error, or a value and the reader
  after it.  \<open>bindP\<close> is sequencing: an exception ends the sequence.
\<close>

type_synonym 'a parser = "reader \<Rightarrow> pyerr + 'a \<times> reader"

definition returnP :: "'a \<Rightarrow> 'a parser" where
  "returnP x = (\<lambda>r. Inr (x, r))"

definition bindP :: "'a parser \<Rightarrow> ('a \<Rightarrow> 'b parser) \<Rightarrow> 'b parser" where
  "bindP m f = (\<lambda>r. case m r of Inl e \<Rightarrow> Inl e | Inr (x, r') \<Rightarrow> f x r')"

text \<open>
  \<open>struct.unpack(fmt, reader.read(n))\<close> raises \<open>struct.error\<close> unless the read
  returned exactly \<open>n\<close> bytes.
\<close>

definition read_exact :: "nat \<Rightarrow> bytes parser" where
  "read_exact n r =
     (case reader_read (int n) r of
        (bs, r') \<Rightarrow> if length bs = n then Inr (bs, r') else Inl StructError)"

definition unpack_i32 :: "int parser" where
  "unpack_i32 = bindP (read_exact 4) (\<lambda>bs. returnP (to_signed 32 (le_uint bs)))"

definition unpack_u32 :: "int parser" where
  "unpack_u32 = bindP (read_exact 4) (\<lambda>bs. returnP (int (le_uint bs)))"

definition unpack_u8 :: "int parser" where
  "unpack_u8 = bindP (read_exact 1) (\<lambda>bs. returnP (int (le_uint bs)))"

subsection \<open>read_string\<close>

text \<open>
  \<^verbatim>\<open>
  def read_string(reader):
      length = struct.unpack('<i', reader.read(4))[0]
      if length <= 0 or length > 10000:
          return ""
      data = reader.read(length)
      return data.decode('utf-8', errors='replace')
  \<close>
\<close>

definition read_string :: "pystr parser" where
  "read_string =
     bindP unpack_i32 (\<lambda>len.
       if len \<le> 0 \<or> len > 10000 then returnP []
       else (\<lambda>r. case reader_read len r of (data, r') \<Rightarrow> Inr (decode_replace data, r')))"

section \<open>Python floats\<close>

text \<open>
  A Python \<open>float\<close> is an IEEE-754 binary64 number.  A finite one is modelled by its
  value, a real number; every arithmetic operation computes the exact result and rounds
  it to the nearest binary64 number, ties to the even significand (\<open>rnd64\<close>).
  \<open>bexp\<close> is the binary exponent of a positive number, not below \<open>-1022\<close> (where
  the subnormal numbers begin) and not above \<open>1023\<close>; the numbers this program computes
  stay far below \<open>2 ^ 1024\<close>, so overflow to infinity is not modelled.  The sign of a
  zero is not modelled either.
\<close>

definition pow2 :: "int \<Rightarrow> real" where
  "pow2 k = (if 0 \<le> k then 2 ^ nat k else 1 / 2 ^ nat (- k))"

definition rne :: "real \<Rightarrow> int" where
  "rne x = (let f = \<lfloor>x\<rfloor>; d = x - of_int f
            in if d < 1/2 then f else if 1/2 < d then f + 1
               else if even f then f else f + 1)"

fun bexp_up :: "nat \<Rightarrow> real \<Rightarrow> int" where
  "bexp_up n x = (if n = 0 \<or> x < 2 then 0 else 1 + bexp_up (n - 1) (x / 2))"

fun bexp_dn :: "nat \<Rightarrow> real \<Rightarrow> int" where
  "bexp_dn n x = (if n = 0 \<or> 1 \<le> x then 0 else bexp_dn (n - 1) (2 * x) - 1)"

declare bexp_up.simps [simp del] bexp_dn.simps [simp del]

definition bexp :: "real \<Rightarrow> int" where
  "bexp a = (if 1 \<le> a then bexp_up 1023 a else bexp_dn 1022 a)"

definition rnd64 :: "real \<Rightarrow> real" where
  "rnd64 x = (if x = 0 then 0
              else let u = pow2 (bexp \<bar>x\<bar> - 52) in of_int (rne (x / u)) * u)"

definition fadd :: "real \<Rightarrow> real \<Rightarrow> real" where
  "fadd x y = rnd64 (x + y)"

definition fsub :: "real \<Rightarrow> real \<Rightarrow> real" where
  "fsub x y = rnd64 (x - y)"

definition fmul :: "real \<Rightarrow> real \<Rightarrow> real" where
  "fmul x y = rnd64 (x * y)"

definition fdiv :: "real \<Rightarrow> real \<Rightarrow> real" where
  "fdiv x y = rnd64 (x / y)"

definition fsqrt :: "real \<Rightarrow> real" where
  "fsqrt x = rnd64 (sqrt x)"

text \<open>An \<open>int\<close> operand of a float operation is converted to the nearest float.\<close>

definition float_of_int :: "int \<Rightarrow> real" where
  "float_of_int n = rnd64 (of_int n)"

text \<open>\<open>int(x)\<close> truncates towards zero.\<close>

definition py_int :: "real \<Rightarrow> int" where
  "py_int x = (if 0 \<le> x then \<lfloor>x\<rfloor> else \<lceil>x\<rceil>)"

text \<open>
  A float that \<open>struct.unpack\<close> decodes from four bytes (IEEE-754 binary32) may also
  be an infinity or a NaN, so stored floats are values of \<open>pyfloat\<close>.
\<close>

datatype pyfloat = Fin real | Inf bool | NaN

definition f32_decode :: "bytes \<Rightarrow> pyfloat" where
  "f32_decode bs =
     (let u = le_uint bs; s = u div 2 ^ 31; e = (u div 2 ^ 23) mod 256; m = u mod 2 ^ 23
      in if e = 255 then (if m = 0 then Inf (s = 1) else NaN)
         else Fin ((if s = 1 then - 1 else 1)
                   * (if e = 0 then real m * pow2 (- 149)
                      else real (2 ^ 23 + m) * pow2 (int e - 150))))"

section \<open>Numeric conversion and normal decompression\<close>

text \<open>
  \<^verbatim>\<open>
  def frac(x):      return x - math.floor(x)
  def saturate(x):  return max(0.0, min(1.0, x))
  def sign_f(x):    1.0 if x > 0, -1.0 if x < 0, else 0.0
  \<close>
  \<open>math.floor\<close> returns an exact integer; it is the integer part of a float, so its
  conversion back to a float in the subtraction is exact.
\<close>

definition frac_f :: "real \<Rightarrow> real" where
  "frac_f x = fsub x (of_int \<lfloor>x\<rfloor>)"

definition saturate :: "real \<Rightarrow> real" where
  "saturate x = max 0 (min 1 x)"

definition sign_f :: "int \<Rightarrow> real" where
  "sign_f x = (if x > 0 then 1 else if x < 0 then - 1 else 0)"

text \<open>
  \<^verbatim>\<open>
  def decompress_normal_from_int16(w):
      if w == -32768:
          w = 0
      abs_w = abs(w)
      frac_x = frac((1.0 / 181.0) * abs_w)
      frac_z = frac((1.0 / 181.0 / 181.0) * abs_w)
      x = (-1.0 + 2.0 * frac_x) * (181.0 / 179.0)
      z = (-1.0 + 2.0 * frac_z) * (181.0 / 180.0)
      y_squared = saturate(1.0 - x * x - z * z)
      y = sign_f(w) * math.sqrt(y_squared)
      return (x, y, z)
  \<close>
\<close>

definition decompress_normal_from_int16 :: "int \<Rightarrow> real \<times> real \<times> real" where
  "decompress_normal_from_int16 w0 =
     (let w = (if w0 = - 32768 then 0 else w0);
          abs_w = \<bar>w\<bar>;
          frac_x = frac_f (fmul (fdiv 1 181) (float_of_int abs_w));
          frac_z = frac_f (fmul (fdiv (fdiv 1 181) 181) (float_of_int abs_w));
          x = fmul (fadd (- 1) (fmul 2 frac_x)) (fdiv 181 179);
          z = fmul (fadd (- 1) (fmul 2 frac_z)) (fdiv 181 180);
          y_squared = saturate (fsub (fsub 1 (fmul x x)) (fmul z z));
          y = fmul (sign_f w) (fsqrt y_squared)
      in (x, y, z))"

text \<open>
  \<^verbatim>\<open>
  def decompress_normal_from_float(w):
      divisors = (0.00390625, 0.0000152587890625, 0.000000059604644775390625)
      x = -1.0 + 2.0 * frac(divisors[0] * w)
      y = -1.0 + 2.0 * frac(divisors[1] * w)
      z = -1.0 + 2.0 * frac(divisors[2] * w)
      return (x, y, z)
  \<close>
  The three divisors are the binary64 numbers \<open>2 ^ -8\<close>, \<open>2 ^ -16\<close> and \<open>2 ^ -24\<close>.
\<close>

definition decompress_normal_from_float :: "real \<Rightarrow> real \<times> real \<times> real" where
  "decompress_normal_from_float w =
     (let x = fadd (- 1) (fmul 2 (frac_f (fmul (rnd64 (1 / 256)) w)));
          y = fadd (- 1) (fmul 2 (frac_f (fmul (rnd64 (1 / 65536)) w)));
          z = fadd (- 1) (fmul 2 (frac_f (fmul (rnd64 (1 / 16777216)) w)))
      in (x, y, z))"

text \<open>The sum of the squares of the components of a vector.\<close>

definition norm_sq :: "real \<times> real \<times> real \<Rightarrow> real" where
  "norm_sq v = (case v of (x, y, z) \<Rightarrow> x * x + y * y + z * z)"




section \<open>Data structures\<close>

text \<open>
  The dataclasses of the parser.  \<open>Matrix4\<close> is its four rows.  A \<open>TPLNode\<close> owns its
  children; its \<open>parent\<close> field is a back-reference to the node that holds it in
  \<open>children\<close> and is given by the position in the tree.
\<close>

type_synonym Vector3 = "pyfloat \<times> pyfloat \<times> pyfloat"
type_synonym Vector4 = "pyfloat \<times> pyfloat \<times> pyfloat \<times> pyfloat"
type_synonym Matrix4 = "Vector4 list"

definition identity :: Matrix4 where
  "identity = [(Fin 1, Fin 0, Fin 0, Fin 0), (Fin 0, Fin 1, Fin 0, Fin 0),
               (Fin 0, Fin 0, Fin 1, Fin 0), (Fin 0, Fin 0, Fin 0, Fin 1)]"

datatype Face = Face (face_a: int) (face_b: int) (face_c: int)

record UVSet =
  uvs :: "(pyfloat \<times> pyfloat) list"
  uv_name :: pystr

record VertexSkin =
  bone_indices :: "int list"
  weights :: "pyfloat list"

record Bone =
  node_uid :: int
  bind_matrix :: Matrix4

record Material =
  mat_name :: pystr
  texture_name :: pystr
  shader_name :: pystr

record MeshData =
  vertices :: "Vector3 list"
  normals :: "Vector3 list"
  faces :: "Face list"
  uv_sets :: "UVSet list"
  colors :: "Vector4 list list"
  tangents :: "Vector4 list"
  skins :: "VertexSkin list"
  bones :: "Bone list"
  materials :: "Material list"

definition empty_mesh :: MeshData where
  "empty_mesh = \<lparr>vertices = [], normals = [], faces = [], uv_sets = [], colors = [],
                 tangents = [], skins = [], bones = [], materials = []\<rparr>"

datatype TPLNode =
  TPLNode (uid: int) (name: pystr) (local_matrix: Matrix4) (world_matrix: Matrix4)
          (mesh: "MeshData option") (children: "TPLNode list") (maya_node_id: pystr)

text \<open>\<open>TPLNode(uid=u, name=n)\<close>: the other fields take their defaults.\<close>

definition new_node :: "int \<Rightarrow> pystr \<Rightarrow> TPLNode" where
  "new_node u n = TPLNode u n identity identity None [] []"

text \<open>The uids of a tree, the node first and then its subtrees in order.\<close>

fun uids :: "TPLNode \<Rightarrow> int list" where
  "uids (TPLNode u n lm wm m cs mid) = u # concat (map uids cs)"

text \<open>\<open>get_all_mesh_nodes\<close>: the meshes a tree carries (an empty mesh is falsy).\<close>

fun meshes_of :: "TPLNode \<Rightarrow> MeshData list" where
  "meshes_of (TPLNode u n lm wm m cs mid) =
     (case m of None \<Rightarrow> [] | Some md \<Rightarrow> [md]) @ concat (map meshes_of cs)"

section \<open>Property sections\<close>

text \<open>
  \<^verbatim>\<open>
  class PropertySection:
      def __init__(self, data=""):
          self.fields = {}
          if data:
              self._parse(data)
      def _parse(self, data):
          data = data.strip()
          if not data:
              return
          lines = data.replace(';', '\n').split('\n')
          for line in lines:
              line = line.strip()
              if '=' in line:
                  key, _, value = line.partition('=')
                  key = key.strip()
                  value = value.strip()
                  if value.startswith('"') and value.endswith('"'):
                      value = value[1:-1]
                  self.fields[key] = value
      def get(self, key, default=None):
          return self.fields.get(key, default)
  \<close>
  \<open>str.strip\<close> removes the Unicode white space characters.
\<close>

definition py_isspace :: "nat \<Rightarrow> bool" where
  "py_isspace c = ((9 \<le> c \<and> c \<le> 13) \<or> (28 \<le> c \<and> c \<le> 32) \<or> c = 133 \<or> c = 160
                   \<or> c = 5760 \<or> (8192 \<le> c \<and> c \<le> 8202) \<or> c = 8232 \<or> c = 8233
                   \<or> c = 8239 \<or> c = 8287 \<or> c = 12288)"

definition strip :: "pystr \<Rightarrow> pystr" where
  "strip s = rev (dropWhile py_isspace (rev (dropWhile py_isspace s)))"

fun split_on :: "nat \<Rightarrow> pystr \<Rightarrow> pystr list" where
  "split_on c [] = [[]]"
| "split_on c (x # xs) =
     (if x = c then [] # split_on c xs
      else (case split_on c xs of [] \<Rightarrow> [[x]] | y # ys \<Rightarrow> (x # y) # ys))"

definition unquote :: "pystr \<Rightarrow> pystr" where
  "unquote v = (case v of [] \<Rightarrow> []
                | q # rest \<Rightarrow> if q = 34 \<and> last v = 34 then butlast rest else v)"

definition parse_line :: "(pystr \<rightharpoonup> pystr) \<Rightarrow> pystr \<Rightarrow> (pystr \<rightharpoonup> pystr)" where
  "parse_line flds line0 =
     (let line = strip line0
      in if 61 \<in> set line
         then (let key = strip (takeWhile (\<lambda>c. c \<noteq> 61) line);
                   val = strip (tl (dropWhile (\<lambda>c. c \<noteq> 61) line))
               in flds(key \<mapsto> unquote val))
         else flds)"

definition PropertySection :: "pystr \<Rightarrow> (pystr \<rightharpoonup> pystr)" where
  "PropertySection data0 =
     (if data0 = [] then Map.empty
      else let data = strip data0
           in if data = [] then Map.empty
              else foldl parse_line Map.empty
                     (split_on 10 (map (\<lambda>c. if c = 59 then 10 else c) data)))"

definition props_get :: "(pystr \<rightharpoonup> pystr) \<Rightarrow> pystr \<Rightarrow> pystr \<Rightarrow> pystr" where
  "props_get flds key dflt = (case flds key of None \<Rightarrow> dflt | Some v \<Rightarrow> v)"

section \<open>The USF parser\<close>

text \<open>
  \<open>for x in xs: ...\<close> and \<open>for _ in range(n): ...\<close> over a parser step, collecting the
  results.
\<close>

fun mapP :: "('a \<Rightarrow> 'b parser) \<Rightarrow> 'a list \<Rightarrow> 'b list parser" where
  "mapP f [] = returnP []"
| "mapP f (x # xs) = bindP (f x) (\<lambda>y. bindP (mapP f xs) (\<lambda>ys. returnP (y # ys)))"

fun repeatP :: "nat \<Rightarrow> 'a parser \<Rightarrow> 'a list parser" where
  "repeatP 0 p = returnP []"
| "repeatP (Suc n) p = bindP p (\<lambda>y. bindP (repeatP n p) (\<lambda>ys. returnP (y # ys)))"

definition f32_at :: "nat \<Rightarrow> bytes \<Rightarrow> pyfloat" where
  "f32_at i bs = f32_decode (take 4 (drop (4 * i) bs))"

definition unpack_ff :: "(pyfloat \<times> pyfloat) parser" where
  "unpack_ff = bindP (read_exact 8) (\<lambda>bs. returnP (f32_at 0 bs, f32_at 1 bs))"

definition unpack_fff :: "Vector3 parser" where
  "unpack_fff = bindP (read_exact 12) (\<lambda>bs. returnP (f32_at 0 bs, f32_at 1 bs, f32_at 2 bs))"

definition unpack_ffff :: "Vector4 parser" where
  "unpack_ffff =
     bindP (read_exact 16) (\<lambda>bs. returnP (f32_at 0 bs, f32_at 1 bs, f32_at 2 bs, f32_at 3 bs))"

text \<open>\<open>Matrix4.read\<close>: each of the four rows is unpacked from 16 bytes.\<close>

definition matrix_read :: "Matrix4 parser" where
  "matrix_read = repeatP 4 unpack_ffff"

text \<open>One packed RGBA colour, each channel divided by 255.0.\<close>

definition channel :: "int \<Rightarrow> nat \<Rightarrow> pyfloat" where
  "channel packed sh = Fin (fdiv (of_int (drop_bit sh packed AND 255)) 255)"

definition read_color :: "Vector4 parser" where
  "read_color =
     bindP unpack_u32 (\<lambda>packed.
       returnP (channel packed 0, channel packed 8, channel packed 16, channel packed 24))"

definition parse_colors :: "int \<Rightarrow> Vector4 list list parser" where
  "parse_colors version =
     (if version < 258 then
        bindP unpack_i32 (\<lambda>color_count.
          if color_count > 0
          then bindP (repeatP (nat color_count) read_color) (\<lambda>cs. returnP [cs])
          else returnP [])
      else
        bindP unpack_i32 (\<lambda>color_set_count.
          repeatP (nat color_set_count)
            (bindP unpack_i32 (\<lambda>color_count. repeatP (nat color_count) read_color))))"

text \<open>The decimal digits of \<open>i\<close>, for the f-string \<open>f"uv{i}"\<close>.\<close>

fun str_nat :: "nat \<Rightarrow> pystr" where
  "str_nat n = (if n < 10 then [48 + n] else str_nat (n div 10) @ [48 + n mod 10])"

declare str_nat.simps [simp del]

definition parse_uv_set :: "int \<Rightarrow> nat \<Rightarrow> UVSet parser" where
  "parse_uv_set version i =
     bindP unpack_i32 (\<lambda>uv_count.
     bindP (repeatP (nat uv_count) unpack_ff) (\<lambda>uv_list.
     bindP (if version \<ge> 263 then read_string else returnP ([117, 118] @ str_nat i)) (\<lambda>nm.
     returnP \<lparr>uvs = uv_list, uv_name = nm\<rparr>)))"

definition parse_tangents :: "int \<Rightarrow> Vector4 list parser" where
  "parse_tangents version =
     (if version \<ge> 259 then
        bindP unpack_i32 (\<lambda>tangent_set_count.
        bindP (repeatP (nat tangent_set_count)
                 (bindP unpack_i32 (\<lambda>tangent_count. repeatP (nat tangent_count) unpack_ffff)))
          (\<lambda>sets. returnP (concat sets)))
      else returnP [])"

text \<open>A face record is one 32-bit field; its low 29 bits are a material index.\<close>

definition parse_face :: "Face parser" where
  "parse_face = bindP unpack_u32 (\<lambda>data. returnP (Face (data AND 536870911) 0 0))"

definition parse_material :: "Material parser" where
  "parse_material =
     bindP read_string (\<lambda>nm.
     bindP unpack_i32 (\<lambda>mat_version.
       if mat_version \<ge> 266 then
         bindP unpack_u32 (\<lambda>vertex_color_usage.
         bindP read_string (\<lambda>mat_data_str.
           let props = PropertySection mat_data_str
           in returnP \<lparr>mat_name = nm,
                       texture_name = props_get props
                         [116, 101, 120, 116, 117, 114, 101, 78, 97, 109, 101] [],
                       shader_name = props_get props
                         [115, 104, 97, 100, 105, 110, 103, 77, 116, 108, 95, 77, 116, 108] []\<rparr>))
       else returnP \<lparr>mat_name = nm, texture_name = [], shader_name = []\<rparr>))"

text \<open>
  \<open>struct.unpack(f'<{bones_per_vertex}i', reader.read(4 * bones_per_vertex))\<close>: a negative
  count gives a malformed format string, which raises \<open>struct.error\<close>.
\<close>

definition parse_skin :: "int \<Rightarrow> VertexSkin parser" where
  "parse_skin bones_per_vertex =
     (if bones_per_vertex < 0 then (\<lambda>r. Inl StructError)
      else let n = nat bones_per_vertex in
        bindP (read_exact (4 * n)) (\<lambda>ib.
        bindP (read_exact (4 * n)) (\<lambda>wb.
        returnP \<lparr>bone_indices = map (\<lambda>i. to_signed 32 (le_uint (take 4 (drop (4 * i) ib)))) [0..<n],
                 weights = map (\<lambda>i. f32_at i wb) [0..<n]\<rparr>)))"

definition parse_bone :: "Bone parser" where
  "parse_bone =
     bindP unpack_i32 (\<lambda>u.
     bindP matrix_read (\<lambda>m.
     returnP \<lparr>node_uid = u, bind_matrix = m\<rparr>))"

definition skip_bytes :: "int \<Rightarrow> unit parser" where
  "skip_bytes n = (\<lambda>r. Inr ((), snd (reader_read n r)))"

definition parse_mesh :: "MeshData parser" where
  "parse_mesh =
     bindP unpack_i32 (\<lambda>version.
     bindP unpack_i32 (\<lambda>vertex_count.
     bindP (repeatP (nat vertex_count) unpack_fff) (\<lambda>vs.
     bindP unpack_i32 (\<lambda>normal_count.
     bindP (repeatP (nat normal_count) unpack_fff) (\<lambda>ns.
     bindP (parse_colors version) (\<lambda>cols.
     bindP unpack_i32 (\<lambda>uv_set_count.
     bindP (mapP (parse_uv_set version) [0..<nat uv_set_count]) (\<lambda>uvsets.
     bindP (parse_tangents version) (\<lambda>tans.
     bindP unpack_i32 (\<lambda>face_count.
     bindP (repeatP (nat face_count) parse_face) (\<lambda>fs.
     bindP unpack_i32 (\<lambda>material_count.
     bindP (repeatP (nat material_count) parse_material) (\<lambda>mats.
     bindP unpack_i32 (\<lambda>bones_per_vertex.
     bindP unpack_i32 (\<lambda>skin_count.
     bindP (repeatP (nat skin_count) (parse_skin bones_per_vertex)) (\<lambda>sks.
     bindP (if version \<ge> 260 then bindP unpack_u8 (\<lambda>skinning_method. returnP ())
            else returnP ()) (\<lambda>_.
     bindP unpack_i32 (\<lambda>bone_count.
     bindP (repeatP (nat bone_count) parse_bone) (\<lambda>bs.
     bindP (if version \<ge> 261 then bindP unpack_i32 (\<lambda>pair_count. skip_bytes (pair_count * 8))
            else returnP ()) (\<lambda>_.
     bindP (if version \<ge> 262
            then bindP unpack_i32 (\<lambda>blend_count.
                   bindP (repeatP (nat blend_count) read_string) (\<lambda>keys. returnP ()))
            else returnP ()) (\<lambda>_.
     returnP \<lparr>vertices = vs, normals = ns, faces = fs, uv_sets = uvsets, colors = cols,
              tangents = tans, skins = sks, bones = bs, materials = mats\<rparr>
     )))))))))))))))))))))"

text \<open>
  An optional section of a node: one flag byte, read when the node's version is high
  enough.  The \<open>_skip_*\<close> methods are all \<open>pass\<close>, so a set flag consumes nothing more.
\<close>

definition flag_section :: "bool \<Rightarrow> unit parser" where
  "flag_section present = (if present then bindP unpack_u8 (\<lambda>flag. returnP ()) else returnP ())"

text \<open>Everything \<open>_parse_node\<close> reads before the child count; the children are still empty.\<close>

definition parse_node_head :: "TPLNode parser" where
  "parse_node_head =
     bindP unpack_i32 (\<lambda>version.
     bindP unpack_i32 (\<lambda>u.
     bindP read_string (\<lambda>nm.
     bindP read_string (\<lambda>model_name.
     bindP read_string (\<lambda>affixes.
     bindP unpack_i32 (\<lambda>pses_version.
     bindP read_string (\<lambda>pses_data.
     bindP matrix_read (\<lambda>lm.
     bindP matrix_read (\<lambda>wm.
     bindP matrix_read (\<lambda>local_original.
     bindP read_string (\<lambda>source_id.
     bindP (flag_section True) (\<lambda>_.
     bindP unpack_u8 (\<lambda>has_mesh.
     bindP (if has_mesh \<noteq> 0 then bindP parse_mesh (\<lambda>m. returnP (Some m)) else returnP None) (\<lambda>m.
     bindP (flag_section True) (\<lambda>_.
     bindP (flag_section True) (\<lambda>_.
     bindP (flag_section (version \<ge> 258)) (\<lambda>_.
     bindP (flag_section (version \<ge> 259)) (\<lambda>_.
     bindP (flag_section (version \<ge> 260)) (\<lambda>_.
     bindP (flag_section (version \<ge> 262)) (\<lambda>_.
     bindP (flag_section (version \<ge> 263)) (\<lambda>_.
     bindP (flag_section (version \<ge> 266)) (\<lambda>_.
     bindP (flag_section (version \<ge> 268)) (\<lambda>_.
     bindP (flag_section (version \<ge> 269)) (\<lambda>_.
     bindP (flag_section (version \<ge> 270)) (\<lambda>_.
     bindP (if version \<ge> 267 then read_string else returnP []) (\<lambda>maya.
     returnP (TPLNode u nm lm wm m [] maya)
     ))))))))))))))))))))))))))"

definition with_children :: "TPLNode \<Rightarrow> TPLNode list \<Rightarrow> TPLNode" where
  "with_children n cs =
     TPLNode (uid n) (name n) (local_matrix n) (world_matrix n) (mesh n) cs (maya_node_id n)"

text \<open>
  \<open>_parse_node\<close> calls itself for every child.  The first argument is the number of
  nested \<open>_parse_node\<close> calls the interpreter still allows: beyond it the call raises
  \<open>RecursionError\<close>, which \<open>_parse\<close> catches like any other exception.
\<close>

fun parse_node :: "nat \<Rightarrow> TPLNode parser"
  and parse_children :: "nat \<Rightarrow> nat \<Rightarrow> TPLNode list parser" where
  "parse_node 0 r = Inl RecursionError"
| "parse_node (Suc d) r =
     bindP parse_node_head (\<lambda>n.
     bindP unpack_i32 (\<lambda>child_count.
     bindP (parse_children d (nat child_count)) (\<lambda>cs.
     returnP (with_children n cs)))) r"
| "parse_children d 0 r = Inr ([], r)"
| "parse_children d (Suc k) r =
     bindP (parse_node d) (\<lambda>child.
     bindP (parse_children d k) (\<lambda>cs.
     returnP (child # cs))) r"

text \<open>
  \<^verbatim>\<open>
  def _parse(self, reader):
      try:
          self.version = struct.unpack('<i', reader.read(4))[0]
          self.source_path = read_string(reader)
          self.file_type = read_string(reader)
          options_str = read_string(reader)
          scene_version = struct.unpack('<I', reader.read(4))[0]
          has_root = struct.unpack('<B', reader.read(1))[0]
          if has_root:
              self.root = self._parse_node(reader)
          return True
      except Exception as e:
          return False
  \<close>
  The result is the returned flag and the parser object as the call leaves it.
\<close>

record USFParser =
  usf_version :: int
  source_path :: pystr
  file_type :: pystr
  usf_root :: "TPLNode option"

definition USFParser_init :: USFParser where
  "USFParser_init = \<lparr>usf_version = 0, source_path = [], file_type = [], usf_root = None\<rparr>"

definition USF_parse :: "nat \<Rightarrow> reader \<Rightarrow> USFParser \<Rightarrow> bool \<times> USFParser" where
  "USF_parse limit r p =
     (case unpack_i32 r of Inl e \<Rightarrow> (False, p) | Inr (v, r1) \<Rightarrow>
      let p1 = p\<lparr>usf_version := v\<rparr> in
      case read_string r1 of Inl e \<Rightarrow> (False, p1) | Inr (sp, r2) \<Rightarrow>
      let p2 = p1\<lparr>source_path := sp\<rparr> in
      case read_string r2 of Inl e \<Rightarrow> (False, p2) | Inr (ft, r3) \<Rightarrow>
      let p3 = p2\<lparr>file_type := ft\<rparr> in
      case read_string r3 of Inl e \<Rightarrow> (False, p3) | Inr (options_str, r4) \<Rightarrow>
      case unpack_u32 r4 of Inl e \<Rightarrow> (False, p3) | Inr (scene_version, r5) \<Rightarrow>
      case unpack_u8 r5 of Inl e \<Rightarrow> (False, p3) | Inr (has_root, r6) \<Rightarrow>
      if has_root \<noteq> 0
      then (case parse_node limit r6 of
              Inl e \<Rightarrow> (False, p3)
            | Inr (n, r7) \<Rightarrow> (True, p3\<lparr>usf_root := Some n\<rparr>))
      else (True, p3))"

text \<open>\<open>USFParser().load(filepath)\<close> on a file with the given content.\<close>

definition USF_load :: "nat \<Rightarrow> bytes \<Rightarrow> bool \<times> USFParser" where
  "USF_load limit file = USF_parse limit \<lparr>buf = file, pos = 0\<rparr> USFParser_init"

section \<open>The 1SER parser\<close>

text \<open>\<open>data.find(pat)\<close>: the first index where \<open>pat\<close> occurs, if any.\<close>

fun bytes_find :: "bytes \<Rightarrow> bytes \<Rightarrow> nat option" where
  "bytes_find pat [] = (if pat = [] then Some 0 else None)"
| "bytes_find pat (x # xs) =
     (if take (length pat) (x # xs) = pat then Some 0
      else map_option Suc (bytes_find pat xs))"

definition magic_1SER :: bytes where "magic_1SER = [49, 83, 69, 82]"
definition magic_TPL1 :: bytes where "magic_TPL1 = [84, 80, 76, 49]"
definition magic_OGM1 :: bytes where "magic_OGM1 = [79, 71, 77, 49]"
definition magic_ANIM :: bytes where "magic_ANIM = [65, 78, 73, 77]"

text \<open>\<open>struct.unpack_from(fmt, data, pos)\<close> raises unless the bytes are all there.\<close>

definition unpack_from_u32 :: "bytes \<Rightarrow> nat \<Rightarrow> pyerr + int" where
  "unpack_from_u32 data p =
     (if p + 4 \<le> length data then Inr (int (le_uint (take 4 (drop p data)))) else Inl StructError)"

definition unpack_from_u16 :: "bytes \<Rightarrow> nat \<Rightarrow> pyerr + int" where
  "unpack_from_u16 data p =
     (if p + 2 \<le> length data then Inr (int (le_uint (take 2 (drop p data)))) else Inl StructError)"

text \<open>Two bytes at an offset already checked to be inside the data.\<close>

definition u16_at :: "bytes \<Rightarrow> int \<Rightarrow> int" where
  "u16_at data off = int (le_uint (take 2 (drop (nat off) data)))"

definition i16_at :: "bytes \<Rightarrow> int \<Rightarrow> int" where
  "i16_at data off = to_signed 16 (le_uint (take 2 (drop (nat off) data)))"

record SERParser =
  tpl_data :: bytes
  tpl_geom_data :: bytes
  ser_version :: int
  ser_root :: "TPLNode option"
  objects :: "TPLNode list"
  buffer_count :: int
  mesh_count :: int
  object_count :: int
  submesh_count :: int

definition SERParser_init :: SERParser where
  "SERParser_init = \<lparr>tpl_data = [], tpl_geom_data = [], ser_version = 0, ser_root = None,
                      objects = [], buffer_count = 0, mesh_count = 0, object_count = 0,
                      submesh_count = 0\<rparr>"

subsection \<open>Object names\<close>

text \<open>
  \<^verbatim>\<open>
  def _read_string(self, pos):
      if pos + 4 > len(self.tpl_data):
          return "", pos
      length = struct.unpack_from('<I', self.tpl_data, pos)[0]
      if length > 256 or length == 0:
          return "", pos
      pos += 4
      if pos + length > len(self.tpl_data):
          return "", pos
      try:
          s = self.tpl_data[pos:pos+length].decode('utf-8').rstrip('\0')
          return s, pos + length
      except:
          return "", pos
  \<close>
\<close>

definition rstrip0 :: "pystr \<Rightarrow> pystr" where
  "rstrip0 s = rev (dropWhile (\<lambda>c. c = 0) (rev s))"

definition SER_read_string :: "bytes \<Rightarrow> nat \<Rightarrow> pystr \<times> nat" where
  "SER_read_string data p =
     (if p + 4 > length data then ([], p)
      else let len = le_uint (take 4 (drop p data)) in
        if len > 256 \<or> len = 0 then ([], p)
        else let p' = p + 4 in
          if p' + len > length data then ([], p')
          else (case decode_strict (take len (drop p' data)) of
                  Inl e \<Rightarrow> ([], p')
                | Inr s \<Rightarrow> (rstrip0 s, p' + len)))"

text \<open>
  \<open>c.isalpha()\<close>: the ASCII letters, and beyond ASCII what the interpreter's Unicode
  database says, which is the parameter \<open>alpha\<close>.
\<close>

definition py_isalpha :: "(nat \<Rightarrow> bool) \<Rightarrow> nat \<Rightarrow> bool" where
  "py_isalpha alpha c =
     (if c < 128 then (65 \<le> c \<and> c \<le> 90) \<or> (97 \<le> c \<and> c \<le> 122) else alpha c)"

text \<open>
  \<^verbatim>\<open>
  def _parse_object_names(self, start_pos):
      ogm1_end = self.tpl_data.find(b'ANIM')
      if ogm1_end < 0:
          ogm1_end = len(self.tpl_data)
      pos = start_pos + 100
      while pos < ogm1_end - 10:
          name, new_pos = self._read_string(pos)
          if name and len(name) > 1 and len(name) < 100:
              if any(c.isalpha() for c in name):
                  node = TPLNode(uid=len(self.objects), name=name)
                  self.objects.append(node)
                  pos = new_pos
                  continue
          pos += 1
  \<close>
\<close>

definition name_ok :: "(nat \<Rightarrow> bool) \<Rightarrow> pystr \<Rightarrow> bool" where
  "name_ok alpha nm =
     (nm \<noteq> [] \<and> length nm > 1 \<and> length nm < 100 \<and> list_ex (py_isalpha alpha) nm)"

function names_loop ::
  "(nat \<Rightarrow> bool) \<Rightarrow> bytes \<Rightarrow> nat \<Rightarrow> nat \<Rightarrow> TPLNode list \<Rightarrow> TPLNode list" where
  "names_loop alpha data ogm1_end p objs =
     (if int p < int ogm1_end - 10 then
        (case SER_read_string data p of
           (nm, new_pos) \<Rightarrow>
             if name_ok alpha nm
             then names_loop alpha data ogm1_end new_pos (objs @ [new_node (int (length objs)) nm])
             else names_loop alpha data ogm1_end (p + 1) objs)
      else objs)"
  by pat_completeness auto
termination
proof (relation "measure (\<lambda>(alpha, data, ogm1_end, p, objs). ogm1_end - p)")
  show "wf (measure (\<lambda>(alpha, data, ogm1_end, p, objs). ogm1_end - p))"
    by simp
next
  fix alpha :: "nat \<Rightarrow> bool" and data :: bytes and ogm1_end p :: nat
    and objs :: "TPLNode list" and nm :: pystr and new_pos :: nat
  assume lt: "int p < int ogm1_end - 10"
    and pair: "(nm, new_pos) = SER_read_string data p"
    and ok: "name_ok alpha nm"
  from ok have "nm \<noteq> []"
    by (simp add: name_ok_def)
  with pair have "p < new_pos"
    by (auto simp: SER_read_string_def Let_def split: if_splits sum.splits)
  with lt show "((alpha, data, ogm1_end, new_pos, objs @ [new_node (int (length objs)) nm]),
                 (alpha, data, ogm1_end, p, objs))
                \<in> measure (\<lambda>(alpha, data, ogm1_end, p, objs). ogm1_end - p)"
    by simp
next
  fix alpha :: "nat \<Rightarrow> bool" and data :: bytes and ogm1_end p :: nat
    and objs :: "TPLNode list"
  assume "int p < int ogm1_end - 10"
  then show "((alpha, data, ogm1_end, p + 1, objs), (alpha, data, ogm1_end, p, objs))
             \<in> measure (\<lambda>(alpha, data, ogm1_end, p, objs). ogm1_end - p)"
    by simp
qed

declare names_loop.simps [simp del]

definition ogm1_end :: "bytes \<Rightarrow> nat" where
  "ogm1_end data = (case bytes_find magic_ANIM data of None \<Rightarrow> length data | Some i \<Rightarrow> i)"

definition parse_object_names :: "(nat \<Rightarrow> bool) \<Rightarrow> nat \<Rightarrow> SERParser \<Rightarrow> SERParser" where
  "parse_object_names alpha start_pos p =
     p\<lparr>objects := names_loop alpha (tpl_data p) (ogm1_end (tpl_data p)) (start_pos + 100)
                     (objects p)\<rparr>"

subsection \<open>Sections TPL1 and OGM1\<close>

text \<open>
  Both return their flag, or the exception they raise, together with the parser object
  as they leave it.
\<close>

definition parse_tpl1 :: "SERParser \<Rightarrow> (pyerr + bool) \<times> SERParser" where
  "parse_tpl1 p =
     (case bytes_find magic_TPL1 (tpl_data p) of
        None \<Rightarrow> (Inr False, p)
      | Some i \<Rightarrow>
          (case unpack_from_u32 (tpl_data p) (i + 4) of
             Inl e \<Rightarrow> (Inl e, p)
           | Inr v \<Rightarrow>
               (case unpack_from_u32 (tpl_data p) (i + 8) of
                  Inl e \<Rightarrow> (Inl e, p\<lparr>ser_version := v\<rparr>)
                | Inr data_size \<Rightarrow> (Inr True, p\<lparr>ser_version := v\<rparr>))))"

definition parse_ogm1 :: "(nat \<Rightarrow> bool) \<Rightarrow> SERParser \<Rightarrow> (pyerr + bool) \<times> SERParser" where
  "parse_ogm1 alpha p =
     (case bytes_find magic_OGM1 (tpl_data p) of
        None \<Rightarrow> (Inr False, p)
      | Some i \<Rightarrow>
          (case unpack_from_u16 (tpl_data p) (i + 4) of
             Inl e \<Rightarrow> (Inl e, p)
           | Inr bc \<Rightarrow>
          let p1 = p\<lparr>buffer_count := bc\<rparr> in
          (case unpack_from_u16 (tpl_data p) (i + 8) of
             Inl e \<Rightarrow> (Inl e, p1)
           | Inr mc \<Rightarrow>
          let p2 = p1\<lparr>mesh_count := mc\<rparr> in
          (case unpack_from_u16 (tpl_data p) (i + 10) of
             Inl e \<Rightarrow> (Inl e, p2)
           | Inr oc \<Rightarrow>
          let p3 = p2\<lparr>object_count := oc\<rparr> in
          (case unpack_from_u16 (tpl_data p) (i + 12) of
             Inl e \<Rightarrow> (Inl e, p3)
           | Inr sc \<Rightarrow>
          (Inr True, parse_object_names alpha (i + 14) (p3\<lparr>submesh_count := sc\<rparr>)))))))"

subsection \<open>Face offset discovery\<close>

text \<open>
  \<^verbatim>\<open>
  def _find_face_data_offset(self):
      data_len = len(self.tpl_geom_data)
      test_positions = [int(data_len * 0.8), int(data_len * 0.85),
                        int(data_len * 0.9), int(data_len * 0.7)]
      for test_pos in test_positions:
          test_pos = (test_pos // 6) * 6
          valid_count = 0
          for i in range(100):
              offset = test_pos + i * 6
              if offset + 6 > data_len:
                  break
              a, b, c = struct.unpack_from('<HHH', self.tpl_geom_data, offset)
              max_expected = 100000
              if a < max_expected and b < max_expected and c < max_expected:
                  if a != b and b != c and a != c:
                      valid_count += 1
          if valid_count > 80:
              return test_pos
      return 0
  \<close>
  A decimal literal denotes the nearest float.
\<close>

definition scaled_len :: "bytes \<Rightarrow> real \<Rightarrow> int" where
  "scaled_len data lit = py_int (fmul (float_of_int (int (length data))) (rnd64 lit))"

definition test_positions :: "bytes \<Rightarrow> int list" where
  "test_positions data =
     [scaled_len data (8 / 10), scaled_len data (85 / 100),
      scaled_len data (9 / 10), scaled_len data (7 / 10)]"

definition looks_valid :: "bytes \<Rightarrow> int \<Rightarrow> bool" where
  "looks_valid data offset =
     (let a = u16_at data offset; b = u16_at data (offset + 2); c = u16_at data (offset + 4)
      in (a < 100000 \<and> b < 100000 \<and> c < 100000) \<and> (a \<noteq> b \<and> b \<noteq> c \<and> a \<noteq> c))"

fun score_loop :: "bytes \<Rightarrow> int \<Rightarrow> nat list \<Rightarrow> nat \<Rightarrow> nat" where
  "score_loop data test_pos [] valid_count = valid_count"
| "score_loop data test_pos (i # rest) valid_count =
     (let offset = test_pos + int i * 6
      in if offset + 6 > int (length data) then valid_count
         else score_loop data test_pos rest
                (if looks_valid data offset then valid_count + 1 else valid_count))"

fun find_loop :: "bytes \<Rightarrow> int list \<Rightarrow> int" where
  "find_loop data [] = 0"
| "find_loop data (t # ts) =
     (let test_pos = (t div 6) * 6;
          valid_count = score_loop data test_pos [0..<100] 0
      in if valid_count > 80 then test_pos else find_loop data ts)"

definition find_face_data_offset :: "bytes \<Rightarrow> int" where
  "find_face_data_offset data = find_loop data (test_positions data)"

text \<open>
  The same search, said in one piece: the score of a candidate is the number of valid
  records among the first 100, up to the first that does not fit into the data; the
  result is the first aligned candidate, in the order of \<open>test_positions\<close>, whose score is
  more than 80, and 0 when there is none.
\<close>

definition score :: "bytes \<Rightarrow> int \<Rightarrow> nat" where
  "score data test_pos =
     length (filter (\<lambda>i. looks_valid data (test_pos + int i * 6))
               (takeWhile (\<lambda>i. test_pos + int i * 6 + 6 \<le> int (length data)) [0..<100]))"

definition first_candidate :: "bytes \<Rightarrow> int list \<Rightarrow> int" where
  "first_candidate data ts =
     (case filter (\<lambda>test_pos. 80 < score data test_pos) (map (\<lambda>t. (t div 6) * 6) ts) of
        [] \<Rightarrow> 0
      | test_pos # rest \<Rightarrow> test_pos)"

subsection \<open>Geometry\<close>

text \<open>
  \<open>round(v, 4)\<close>: the decimal with four places nearest to the exact value of \<open>v\<close>
  (ties to even), converted back to the nearest float.
\<close>

definition py_round4 :: "real \<Rightarrow> real" where
  "py_round4 v = rnd64 (of_int (rne (v * 10000)) / 10000)"

definition POSITION_SCALE :: real where
  "POSITION_SCALE = rnd64 (1 / 100)"

definition float3 :: "real \<times> real \<times> real \<Rightarrow> Vector3" where
  "float3 v = (case v of (x, y, z) \<Rightarrow> (Fin x, Fin y, Fin z))"

text \<open>
  \<^verbatim>\<open>
  seen_positions = {}
  vertex_count = vertex_data_end // 8
  for i in range(vertex_count):
      offset = i * 8
      if offset + 8 > len(self.tpl_geom_data):
          break
      x, y, z, packed = struct.unpack_from('<hhhH', self.tpl_geom_data, offset)
      pos = (x * self.POSITION_SCALE, y * self.POSITION_SCALE, z * self.POSITION_SCALE)
      pos_key = (round(pos[0], 4), round(pos[1], 4), round(pos[2], 4))
      if pos_key not in seen_positions:
          seen_positions[pos_key] = len(mesh_node.mesh.vertices)
          nx, ny, nz = decompress_normal_from_int16(packed)
          mesh_node.mesh.vertices.append(pos)
          mesh_node.mesh.normals.append((nx, ny, nz))
  \<close>
  The loop state is the dictionary and the two lists.
\<close>

type_synonym vstate = "((real \<times> real \<times> real) \<rightharpoonup> nat) \<times> Vector3 list \<times> Vector3 list"

fun vertex_loop :: "bytes \<Rightarrow> nat list \<Rightarrow> vstate \<Rightarrow> vstate" where
  "vertex_loop data [] st = st"
| "vertex_loop data (i # rest) (seen, vs, ns) =
     (let offset = int i * 8
      in if offset + 8 > int (length data) then (seen, vs, ns)
         else
           let x = i16_at data offset; y = i16_at data (offset + 2);
               z = i16_at data (offset + 4); packed = u16_at data (offset + 6);
               p = (fmul (float_of_int x) POSITION_SCALE, fmul (float_of_int y) POSITION_SCALE,
                    fmul (float_of_int z) POSITION_SCALE);
               pos_key = (case p of (px, py, pz) \<Rightarrow> (py_round4 px, py_round4 py, py_round4 pz))
           in if seen pos_key = None
              then vertex_loop data rest
                     (seen(pos_key \<mapsto> length vs), vs @ [float3 p],
                      ns @ [float3 (decompress_normal_from_int16 packed)])
              else vertex_loop data rest (seen, vs, ns))"

text \<open>
  \<^verbatim>\<open>
  face_data_size = min(data_len - face_offset, 1000000)
  max_vertex_idx = len(mesh_node.mesh.vertices)
  for i in range(face_data_size // 6):
      offset = face_offset + i * 6
      if offset + 6 > len(self.tpl_geom_data):
          break
      a, b, c = struct.unpack_from('<HHH', self.tpl_geom_data, offset)
      if a < max_vertex_idx and b < max_vertex_idx and c < max_vertex_idx:
          mesh_node.mesh.faces.append(Face(a, b, c))
  \<close>
\<close>

fun face_loop :: "bytes \<Rightarrow> int \<Rightarrow> int \<Rightarrow> nat list \<Rightarrow> Face list \<Rightarrow> Face list" where
  "face_loop data face_offset max_vertex_idx [] fs = fs"
| "face_loop data face_offset max_vertex_idx (i # rest) fs =
     (let offset = face_offset + int i * 6
      in if offset + 6 > int (length data) then fs
         else
           let a = u16_at data offset; b = u16_at data (offset + 2); c = u16_at data (offset + 4)
           in face_loop data face_offset max_vertex_idx rest
                (if a < max_vertex_idx \<and> b < max_vertex_idx \<and> c < max_vertex_idx
                 then fs @ [Face a b c] else fs))"

text \<open>
  \<^verbatim>\<open>
  data_len = len(self.tpl_geom_data)
  face_offset = self._find_face_data_offset()
  if face_offset > 0:
      vertex_data_end = face_offset
  else:
      vertex_data_end = int(data_len * 0.9)
      face_offset = vertex_data_end
  \<close>
  In both branches the face data starts where the vertex data ends.  \<open>geometry_mesh\<close> is
  the mesh \<open>_parse_geometry\<close> then builds, vertices first and then faces.
\<close>

definition vertex_data_end :: "bytes \<Rightarrow> int" where
  "vertex_data_end data =
     (let found = find_face_data_offset data
      in if found > 0 then found else scaled_len data (9 / 10))"

definition geometry_mesh :: "bytes \<Rightarrow> MeshData" where
  "geometry_mesh data =
     (let data_len = int (length data);
          face_offset = vertex_data_end data;
          vertex_count = vertex_data_end data div 8;
          st = vertex_loop data [0..<nat vertex_count] (Map.empty, [], []);
          vs = fst (snd st);
          ns = snd (snd st);
          face_data_size = min (data_len - face_offset) 1000000;
          fs = face_loop data face_offset (int (length vs)) [0..<nat (face_data_size div 6)] []
      in empty_mesh\<lparr>vertices := vs, normals := ns, faces := fs\<rparr>)"

text \<open>
  \<^verbatim>\<open>
  def _parse_geometry(self):
      if not self.tpl_geom_data:
          return
      mesh_node = TPLNode(uid=0, name="mesh")
      mesh_node.mesh = MeshData()
      ...
      if mesh_node.mesh.vertices and mesh_node.mesh.faces:
          self.objects.insert(0, mesh_node)
  \<close>
\<close>

definition mesh_node_of :: "MeshData \<Rightarrow> TPLNode" where
  "mesh_node_of m = TPLNode 0 [109, 101, 115, 104] identity identity (Some m) [] []"

definition parse_geometry :: "SERParser \<Rightarrow> SERParser" where
  "parse_geometry p =
     (if tpl_geom_data p = [] then p
      else let m = geometry_mesh (tpl_geom_data p)
           in if vertices m \<noteq> [] \<and> faces m \<noteq> []
              then p\<lparr>objects := mesh_node_of m # objects p\<rparr>
              else p)"

text \<open>
  \<^verbatim>\<open>
  def _build_hierarchy(self):
      if self.objects:
          self.root = TPLNode(uid=-1, name=".root.")
          for obj in self.objects:
              obj.parent = self.root
              self.root.children.append(obj)
  \<close>
\<close>

definition build_hierarchy :: "SERParser \<Rightarrow> SERParser" where
  "build_hierarchy p =
     (if objects p \<noteq> []
      then p\<lparr>ser_root := Some (TPLNode (- 1) [46, 114, 111, 111, 116, 46] identity identity
                                  None (objects p) [])\<rparr>
      else p)"

subsection \<open>Parsing and loading\<close>

text \<open>
  \<^verbatim>\<open>
  def _parse(self):
      try:
          if not self._parse_tpl1():
              return False
          if not self._parse_ogm1():
              return False
          self._parse_geometry()
          self._build_hierarchy()
          return True
      except Exception as e:
          return False
  \<close>
\<close>

definition SER_parse :: "(nat \<Rightarrow> bool) \<Rightarrow> SERParser \<Rightarrow> bool \<times> SERParser" where
  "SER_parse alpha p =
     (case parse_tpl1 p of
        (Inl e, p1) \<Rightarrow> (False, p1)
      | (Inr False, p1) \<Rightarrow> (False, p1)
      | (Inr True, p1) \<Rightarrow>
          (case parse_ogm1 alpha p1 of
             (Inl e, p2) \<Rightarrow> (False, p2)
           | (Inr False, p2) \<Rightarrow> (False, p2)
           | (Inr True, p2) \<Rightarrow> (True, build_hierarchy (parse_geometry p2))))"

text \<open>
  \<open>SERParser().load(filepath)\<close> for a path that is a file with the given content;
  \<open>data_file\<close> is the content of the companion file \<open>filepath + "_data"\<close>, if it exists.
\<close>

definition SER_load :: "(nat \<Rightarrow> bool) \<Rightarrow> bytes \<Rightarrow> bytes option \<Rightarrow> bool \<times> SERParser" where
  "SER_load alpha file data_file =
     (let p = SERParser_init\<lparr>tpl_data := file\<rparr>
      in if take 4 file \<noteq> magic_1SER then (False, p)
         else SER_parse alpha
                (case data_file of None \<Rightarrow> p | Some g \<Rightarrow> p\<lparr>tpl_geom_data := g\<rparr>))"

section \<open>The unified loader\<close>

text \<open>
  \<^verbatim>\<open>
  def load_tpl(filepath):
      try:
          with open(filepath, 'rb') as f:
              header = f.read(8)
      except Exception as e:
          return None, 'UNKNOWN'
      if header[:4] == b'1SER':
          parser = SERParser()
          if parser.load(filepath):
              return parser.root, '1SER'
          return None, '1SER'
      version = struct.unpack('<i', header[:4])[0]
      if 0 < version < 1000:
          parser = USFParser()
          if parser.load(filepath):
              return parser.root, 'USF'
      parser = SERParser()
      if parser.load(filepath):
          return parser.root, '1SER'
      parser = USFParser()
      if parser.load(filepath):
          return parser.root, 'USF'
      return None, 'UNKNOWN'
  \<close>
  The model returns the parser loads that were called, in order, and then what the
  function returns or raises: the unpacking of the header is outside the \<open>try\<close>.
  \<open>file\<close> is the content of the file, \<open>None\<close> when it cannot be opened.
\<close>

datatype format_type = USF | SER1 | UNKNOWN

datatype load_call = SER_call | USF_call

type_synonym load_result = "load_call list \<times> (pyerr + TPLNode option \<times> format_type)"

definition try_all :: "(nat \<Rightarrow> bool) \<Rightarrow> nat \<Rightarrow> bytes \<Rightarrow> bytes option \<Rightarrow> load_call list
                       \<Rightarrow> load_result" where
  "try_all alpha limit file data_file calls =
     (case SER_load alpha file data_file of
        (True, sp) \<Rightarrow> (calls @ [SER_call], Inr (ser_root sp, SER1))
      | (False, sp) \<Rightarrow>
          (case USF_load limit file of
             (True, up) \<Rightarrow> (calls @ [SER_call, USF_call], Inr (usf_root up, USF))
           | (False, up) \<Rightarrow> (calls @ [SER_call, USF_call], Inr (None, UNKNOWN))))"

definition load_tpl :: "(nat \<Rightarrow> bool) \<Rightarrow> nat \<Rightarrow> bytes option \<Rightarrow> bytes option \<Rightarrow> load_result" where
  "load_tpl alpha limit file_opt data_file =
     (case file_opt of
        None \<Rightarrow> ([], Inr (None, UNKNOWN))
      | Some file \<Rightarrow>
          let header = take 8 file in
          if take 4 header = magic_1SER then
            (case SER_load alpha file data_file of
               (True, sp) \<Rightarrow> ([SER_call], Inr (ser_root sp, SER1))
             | (False, sp) \<Rightarrow> ([SER_call], Inr (None, SER1)))
          else if length (take 4 header) \<noteq> 4 then ([], Inl StructError)
          else
            let version = to_signed 32 (le_uint (take 4 header)) in
            if 0 < version \<and> version < 1000 then
              (case USF_load limit file of
                 (True, up) \<Rightarrow> ([USF_call], Inr (usf_root up, USF))
               | (False, up) \<Rightarrow> try_all alpha limit file data_file [USF_call])
            else try_all alpha limit file data_file [])"

text \<open>The first four bytes of the file, unpacked as \<open>'<i'\<close>.\<close>

definition header_version :: "bytes \<Rightarrow> int" where
  "header_version file = to_signed 32 (le_uint (take 4 file))"

text \<open>The face record number \<open>i\<close> of the face data that starts at \<open>face_offset\<close>.\<close>

definition face_at :: "bytes \<Rightarrow> int \<Rightarrow> nat \<Rightarrow> Face" where
  "face_at data face_offset i =
     Face (u16_at data (face_offset + int i * 6)) (u16_at data (face_offset + int i * 6 + 2))
          (u16_at data (face_offset + int i * 6 + 4))"

section \<open>Predicates on trees and example files\<close>

text \<open>
  What \<open>_parse_object_names\<close> keeps true of the object list: the uids count up from 0,
  and the nodes have neither a mesh nor children.
\<close>

definition names_inv :: "TPLNode list \<Rightarrow> bool" where
  "names_inv objs = (map uid objs = map int [0..<length objs]
                     \<and> (\<forall>n \<in> set objs. mesh n = None \<and> children n = []))"

text \<open>The uids of a tree are pairwise distinct.\<close>

definition uids_distinct :: "TPLNode \<Rightarrow> bool" where
  "uids_distinct t = distinct (uids t)"

text \<open>Every index of every face of a mesh is an index into its vertex list.\<close>

definition face_in_range :: "MeshData \<Rightarrow> Face \<Rightarrow> bool" where
  "face_in_range m f =
     (0 \<le> face_a f \<and> face_a f < int (length (vertices m))
      \<and> 0 \<le> face_b f \<and> face_b f < int (length (vertices m))
      \<and> 0 \<le> face_c f \<and> face_c f < int (length (vertices m)))"

definition mesh_faces_ok :: "MeshData \<Rightarrow> bool" where
  "mesh_faces_ok m = list_all (face_in_range m) (faces m)"

definition tree_faces_ok :: "TPLNode \<Rightarrow> bool" where
  "tree_faces_ok t = list_all mesh_faces_ok (meshes_of t)"

text \<open>
  A Unicode table with no letters beyond ASCII, for the examples, whose names are ASCII.
\<close>

definition ascii_alpha :: "nat \<Rightarrow> bool" where
  "ascii_alpha c = False"

text \<open>
  A USF file cut off after its header: version 1, three empty strings, a scene version
  and the root flag set, then nothing.
\<close>

definition truncated_usf_file :: bytes where
  "truncated_usf_file = [1, 0, 0, 0] @ replicate 16 0 @ [1]"

text \<open>
  A file that begins with \<open>1SER\<close> and is otherwise a well-formed USF file with a root node
  (232 zero bytes: version 0, uid 0, empty strings, three zero matrices, no optional
  section, no children).
\<close>

definition ser_magic_usf_file :: bytes where
  "ser_magic_usf_file = magic_1SER @ replicate 16 0 @ [1] @ replicate 232 0"

text \<open>A USF file, version 1, whose root node has one child; both nodes have uid 0.\<close>

definition dup_uid_usf_file :: bytes where
  "dup_uid_usf_file =
     [1, 0, 0, 0] @ replicate 16 0 @ [1] @ replicate 228 0 @ [1, 0, 0, 0] @ replicate 232 0"

text \<open>
  A USF file, version 1, whose root node carries a mesh with no vertex and one face
  record.
\<close>

definition face_usf_file :: bytes where
  "face_usf_file =
     [1, 0, 0, 0] @ replicate 16 0 @ [1] @ replicate 225 0 @ [1] @ replicate 20 0
     @ [1, 0, 0, 0] @ replicate 26 0"

text \<open>
  A 1SER file with the sections \<open>TPL1\<close> and \<open>OGM1\<close> and, 100 bytes after the counts, the
  two names \<open>ab\<close> and \<open>cd\<close>; and geometry data of 80 zero bytes.
\<close>

definition named_ser_file :: bytes where
  "named_ser_file =
     magic_1SER @ magic_TPL1 @ replicate 8 0 @ magic_OGM1 @ replicate 110 0
     @ [2, 0, 0, 0, 97, 98] @ [2, 0, 0, 0, 99, 100] @ replicate 11 0"


text \<open>
  Geometry data of 3000 bytes: 400 records of zeros, then \<open>v\<close> records with the indices
  1, 2, 3, then \<open>100 - v\<close> records of zeros.  A record is 6 bytes.
\<close>

definition valid_run_blob :: "nat \<Rightarrow> bytes" where
  "valid_run_blob v =
     concat (replicate 400 (replicate 6 0) @ replicate v [1, 0, 2, 0, 3, 0]
             @ replicate (100 - v) (replicate 6 0))"

definition zero_geometry :: bytes where
  "zero_geometry = replicate 80 0"

section \<open>Properties\<close>

subsection \<open>Evaluation on concrete inputs\<close>

lemma replicate_num: "replicate (numeral k) x = x # replicate (pred_numeral k) x"
  by (simp add: numeral_eq_Suc)

lemma repeatP_unfold:
  "repeatP n p =
     (if n = 0 then returnP []
      else bindP p (\<lambda>y. bindP (repeatP (n - 1) p) (\<lambda>ys. returnP (y # ys))))"
  by (cases n) simp_all

lemma upt_0_num: "[0..<numeral n] = 0 # [Suc 0..<numeral n]"
  by (rule upt_conv_Cons) simp

lemma upt_1_num:
  "[Suc 0..<numeral n] = (if Suc 0 < numeral n then Suc 0 # [2..<numeral n] else [])"
proof (cases "Suc 0 < numeral n")
  case True
  have "Suc (Suc 0) = 2" by simp
  with upt_conv_Cons [OF True] True show ?thesis by (simp only: if_True)
next
  case False
  then show ?thesis by simp
qed

lemmas float_eval = rnd64_def bexp_def bexp_up.simps bexp_dn.simps pow2_def rne_def Let_def
  fadd_def fsub_def fmul_def fdiv_def float_of_int_def py_int_def

lemmas usf_eval = USF_load_def USF_parse_def USFParser_init_def parse_node_head_def
  unpack_i32_def unpack_u32_def unpack_u8_def bindP_def returnP_def read_exact_def
  reader_read_def read_string_def to_signed_def Let_def decode_replace_def matrix_read_def
  repeatP_unfold unpack_ffff_def unpack_fff_def unpack_ff_def flag_section_def f32_at_def
  f32_decode_def pow2_def with_children_def replicate_num magic_1SER_def

lemma usf_truncated:
  "USF_load (Suc 0) truncated_usf_file =
     (False, \<lparr>usf_version = 1, source_path = [], file_type = [], usf_root = None\<rparr>)"
  by (simp add: truncated_usf_file_def usf_eval)

lemma usf_ser_magic:
  "USF_load (Suc 0) ser_magic_usf_file =
     (True, \<lparr>usf_version = 1380274993, source_path = [], file_type = [],
             usf_root = Some (TPLNode 0 [] (replicate 4 (Fin 0, Fin 0, Fin 0, Fin 0))
                                (replicate 4 (Fin 0, Fin 0, Fin 0, Fin 0)) None [] [])\<rparr>)"
  by (simp add: ser_magic_usf_file_def usf_eval)

lemma ser_ser_magic: "\<not> fst (SER_load ascii_alpha ser_magic_usf_file None)"
  by (simp add: SER_load_def SER_parse_def parse_tpl1_def ser_magic_usf_file_def magic_1SER_def
        magic_TPL1_def replicate_num SERParser_init_def)

lemma usf_dup_uid:
  "USF_load (Suc (Suc 0)) dup_uid_usf_file =
     (True, \<lparr>usf_version = 1, source_path = [], file_type = [],
             usf_root = Some (TPLNode 0 [] (replicate 4 (Fin 0, Fin 0, Fin 0, Fin 0))
                                (replicate 4 (Fin 0, Fin 0, Fin 0, Fin 0)) None
                                [TPLNode 0 [] (replicate 4 (Fin 0, Fin 0, Fin 0, Fin 0))
                                   (replicate 4 (Fin 0, Fin 0, Fin 0, Fin 0)) None [] []]
                                [])\<rparr>)"
  by (simp add: dup_uid_usf_file_def usf_eval)

lemma usf_face:
  "USF_load (Suc 0) face_usf_file =
     (True, \<lparr>usf_version = 1, source_path = [], file_type = [],
             usf_root = Some (TPLNode 0 [] (replicate 4 (Fin 0, Fin 0, Fin 0, Fin 0))
                                (replicate 4 (Fin 0, Fin 0, Fin 0, Fin 0))
                                (Some (empty_mesh\<lparr>faces := [Face 0 0 0]\<rparr>)) [] [])\<rparr>)"
  by (simp add: face_usf_file_def usf_eval parse_mesh_def parse_colors_def parse_tangents_def
        parse_face_def empty_mesh_def)


lemma reader_read_length:
  "length (fst (reader_read n r)) \<le> length (buf r) - pos r"
  by (simp add: reader_read_def Let_def)

lemma read_exact_ok:
  "pos r + n \<le> length (buf r) \<Longrightarrow>
   read_exact n r = Inr (take n (drop (pos r) (buf r)), r\<lparr>pos := pos r + n\<rparr>)"
  by (simp add: read_exact_def reader_read_def Let_def)

lemma unpack_i32_ok:
  "pos r + 4 \<le> length (buf r) \<Longrightarrow>
   unpack_i32 r = Inr (to_signed 32 (le_uint (take 4 (drop (pos r) (buf r)))), r\<lparr>pos := pos r + 4\<rparr>)"
  by (simp add: unpack_i32_def bindP_def returnP_def read_exact_ok)

text \<open>
  C9.  When four bytes are left at the cursor and they decode (little-endian, signed)
  to a length that is at most 0 or greater than 10000, \<open>read_string\<close> does not raise,
  returns the empty string, and leaves the cursor four bytes further, just after the
  length prefix and still inside the buffer; the buffer is unchanged.
\<close>

theorem read_string_bad_length:
  assumes "pos r + 4 \<le> length (buf r)"
    and "to_signed 32 (le_uint (take 4 (drop (pos r) (buf r)))) = len"
    and "len \<le> 0 \<or> len > 10000"
  shows "read_string r = Inr ([], r\<lparr>pos := pos r + 4\<rparr>)
         \<and> pos (r\<lparr>pos := pos r + 4\<rparr>) \<le> length (buf r)
         \<and> buf (r\<lparr>pos := pos r + 4\<rparr>) = buf r"
  using assms by (auto simp: read_string_def bindP_def returnP_def unpack_i32_ok)

theorem read_string_bad_length_witness:
  "pos \<lparr>buf = [17, 39, 0, 0, 65], pos = 0\<rparr> + 4 \<le> length (buf \<lparr>buf = [17, 39, 0, 0, 65], pos = 0\<rparr>)
   \<and> to_signed 32 (le_uint (take 4 (drop 0 [17, 39, 0, 0, 65 :: byte]))) = 10001
   \<and> read_string \<lparr>buf = [17, 39, 0, 0, 65], pos = 0\<rparr>
       = Inr ([], \<lparr>buf = [17, 39, 0, 0, 65], pos = 4\<rparr>)"
  using read_string_bad_length [of "\<lparr>buf = [17, 39, 0, 0, 65], pos = 0\<rparr>" 10001]
  by (simp add: to_signed_def)

subsection \<open>The loader, case by case\<close>

lemma USF_parse_fail_root:
  "USF_parse limit r p = (False, p') \<Longrightarrow> usf_root p' = usf_root p"
  by (auto simp: USF_parse_def Let_def split: sum.splits prod.splits if_splits)

lemma USF_load_fail_root:
  "\<not> fst (USF_load limit file) \<Longrightarrow> usf_root (snd (USF_load limit file)) = None"
  using USF_parse_fail_root [of limit "\<lparr>buf = file, pos = 0\<rparr>" USFParser_init "snd (USF_load limit file)"]
  by (cases "USF_load limit file") (simp add: USF_load_def USFParser_init_def)

lemma SER_load_magic:
  "take 4 file \<noteq> magic_1SER \<Longrightarrow> \<not> fst (SER_load alpha file data_file)"
  by (simp add: SER_load_def Let_def)

lemma load_tpl_1SER:
  "take 4 file = magic_1SER \<Longrightarrow>
   load_tpl alpha limit (Some file) data_file =
     ([SER_call],
      Inr (if fst (SER_load alpha file data_file)
           then (ser_root (snd (SER_load alpha file data_file)), SER1) else (None, SER1)))"
  by (cases "SER_load alpha file data_file") (simp add: load_tpl_def Let_def split: bool.splits)

lemma load_tpl_short:
  "take 4 file \<noteq> magic_1SER \<Longrightarrow> length file < 4 \<Longrightarrow>
   load_tpl alpha limit (Some file) data_file = ([], Inl StructError)"
  by (simp add: load_tpl_def Let_def)

lemma try_all_other:
  "take 4 file \<noteq> magic_1SER \<Longrightarrow>
   try_all alpha limit file data_file calls =
     (calls @ [SER_call, USF_call],
      Inr (if fst (USF_load limit file)
           then (usf_root (snd (USF_load limit file)), USF) else (None, UNKNOWN)))"
  using SER_load_magic [of "file" alpha data_file]
  by (cases "SER_load alpha file data_file"; cases "USF_load limit file")
     (simp add: try_all_def split: bool.splits)

lemma load_tpl_other:
  "take 4 file \<noteq> magic_1SER \<Longrightarrow> 4 \<le> length file \<Longrightarrow>
   load_tpl alpha limit (Some file) data_file =
     (if 0 < header_version file \<and> header_version file < 1000
      then (if fst (USF_load limit file)
            then ([USF_call], Inr (usf_root (snd (USF_load limit file)), USF))
            else ([USF_call, SER_call, USF_call], Inr (None, UNKNOWN)))
      else ([SER_call, USF_call],
            Inr (if fst (USF_load limit file)
                 then (usf_root (snd (USF_load limit file)), USF) else (None, UNKNOWN))))"
  by (cases "USF_load limit file")
     (simp add: load_tpl_def Let_def try_all_other header_version_def split: bool.splits)

text \<open>
  When the USF parse of a file fails, for whatever reason (a read past the end of the
  buffer in a node included), the parser object's root is still \<open>None\<close>, and whenever
  \<open>load_tpl\<close> has called the USF parser on that file, it returns \<open>(None, 'UNKNOWN')\<close>.
  When both parsers fail on a file of at least four bytes, \<open>load_tpl\<close> returns \<open>None\<close> for
  the root.
\<close>

lemma usf_failure_result:
  assumes "\<not> fst (USF_load limit file)"
  shows "usf_root (snd (USF_load limit file)) = None
    \<and> (USF_call \<in> set (fst (load_tpl alpha limit (Some file) data_file))
          \<longrightarrow> snd (load_tpl alpha limit (Some file) data_file) = Inr (None, UNKNOWN))
    \<and> (\<not> fst (SER_load alpha file data_file) \<and> 4 \<le> length file
          \<longrightarrow> (\<exists>fmt. snd (load_tpl alpha limit (Some file) data_file) = Inr (None, fmt)))"
proof (intro conjI impI)
  show "usf_root (snd (USF_load limit file)) = None"
    using assms by (rule USF_load_fail_root)
next
  assume called: "USF_call \<in> set (fst (load_tpl alpha limit (Some file) data_file))"
  show "snd (load_tpl alpha limit (Some file) data_file) = Inr (None, UNKNOWN)"
  proof (cases "take 4 file = magic_1SER")
    case True
    with called show ?thesis by (simp add: load_tpl_1SER)
  next
    case False
    show ?thesis
    proof (cases "4 \<le> length file")
      case True
      with False assms show ?thesis by (simp add: load_tpl_other)
    next
      case False
      with \<open>take 4 file \<noteq> magic_1SER\<close> called show ?thesis by (simp add: load_tpl_short)
    qed
  qed
next
  assume "\<not> fst (SER_load alpha file data_file) \<and> 4 \<le> length file"
  then have ser: "\<not> fst (SER_load alpha file data_file)" and len: "4 \<le> length file"
    by simp_all
  show "\<exists>fmt. snd (load_tpl alpha limit (Some file) data_file) = Inr (None, fmt)"
  proof (cases "take 4 file = magic_1SER")
    case True
    with ser show ?thesis by (simp add: load_tpl_1SER)
  next
    case False
    with len assms show ?thesis by (simp add: load_tpl_other)
  qed
qed

text \<open>
  C4, on a file of fewer than four bytes.  For the two-byte file \<open>01 00\<close> the USF
  parser fails, its root \<open>None\<close>, and the SER parser fails; but \<open>load_tpl\<close> calls neither:
  \<open>struct.unpack('<i', header[:4])\<close> is outside every \<open>try\<close> and raises \<open>struct.error\<close>,
  so \<open>load_tpl\<close> returns no result at all.  The same holds for the empty file.
\<close>

theorem load_tpl_short_file_raises:
  "\<not> fst (USF_load (Suc 0) [1, 0])
   \<and> usf_root (snd (USF_load (Suc 0) [1, 0])) = None
   \<and> \<not> fst (SER_load ascii_alpha [1, 0] None)
   \<and> load_tpl ascii_alpha (Suc 0) (Some [1, 0]) None = ([], Inl StructError)
   \<and> load_tpl ascii_alpha (Suc 0) (Some []) None = ([], Inl StructError)"
proof -
  have u: "\<not> fst (USF_load (Suc 0) [1, 0])"
    by (simp add: usf_eval)
  have m: "take 4 [1, 0 :: byte] \<noteq> magic_1SER" "take 4 ([] :: byte list) \<noteq> magic_1SER"
    by (simp_all add: magic_1SER_def)
  from u USF_load_fail_root [OF u] SER_load_magic [OF m(1)] load_tpl_short [OF m(1)]
    load_tpl_short [OF m(2)]
  show ?thesis by simp
qed

text \<open>
  C2, as stated, fails: this file begins with \<open>1SER\<close>, the SER parser fails on it (it
  has no \<open>TPL1\<close> section) and the USF parser would succeed on it with a root node, but
  \<open>load_tpl\<close> calls the SER parser only and returns \<open>(None, '1SER')\<close>.
\<close>

theorem load_tpl_1SER_no_fallback:
  "load_tpl ascii_alpha (Suc 0) (Some ser_magic_usf_file) None = ([SER_call], Inr (None, SER1))
   \<and> fst (USF_load (Suc 0) ser_magic_usf_file)
   \<and> usf_root (snd (USF_load (Suc 0) ser_magic_usf_file)) \<noteq> None"
proof -
  have "take 4 ser_magic_usf_file = magic_1SER"
    by (simp add: ser_magic_usf_file_def magic_1SER_def)
  then show ?thesis
    using ser_ser_magic by (simp add: load_tpl_1SER usf_ser_magic)
qed

text \<open>
  C2, amended.  When the header selects the USF parser (it is not \<open>1SER\<close> and its first
  four bytes are a little-endian signed integer in the open interval (0, 1000)) and the
  USF parser fails, \<open>load_tpl\<close> calls the SER parser and then the USF parser once more
  before it returns \<open>(None, 'UNKNOWN')\<close>.  When the header is \<open>1SER\<close>, \<open>load_tpl\<close> calls
  the SER parser only, and returns \<open>(None, '1SER')\<close> if it fails.
\<close>

theorem load_tpl_fallback:
  "(take 4 file \<noteq> magic_1SER \<and> 4 \<le> length file
      \<and> 0 < header_version file \<and> header_version file < 1000
      \<and> \<not> fst (USF_load limit file)
    \<longrightarrow> load_tpl alpha limit (Some file) data_file
        = ([USF_call, SER_call, USF_call], Inr (None, UNKNOWN)))
   \<and> (take 4 file = magic_1SER
    \<longrightarrow> fst (load_tpl alpha limit (Some file) data_file) = [SER_call]
        \<and> (\<not> fst (SER_load alpha file data_file)
             \<longrightarrow> snd (load_tpl alpha limit (Some file) data_file) = Inr (None, SER1)))"
  by (simp add: load_tpl_other load_tpl_1SER)

theorem load_tpl_fallback_witness:
  "(take 4 truncated_usf_file \<noteq> magic_1SER \<and> 4 \<le> length truncated_usf_file
      \<and> 0 < header_version truncated_usf_file \<and> header_version truncated_usf_file < 1000
      \<and> \<not> fst (USF_load (Suc 0) truncated_usf_file)
      \<and> load_tpl ascii_alpha (Suc 0) (Some truncated_usf_file) None
          = ([USF_call, SER_call, USF_call], Inr (None, UNKNOWN)))
   \<and> (take 4 ser_magic_usf_file = magic_1SER
      \<and> fst (load_tpl ascii_alpha (Suc 0) (Some ser_magic_usf_file) None) = [SER_call]
      \<and> \<not> fst (SER_load ascii_alpha ser_magic_usf_file None)
      \<and> snd (load_tpl ascii_alpha (Suc 0) (Some ser_magic_usf_file) None) = Inr (None, SER1))"
proof -
  have a: "take 4 truncated_usf_file \<noteq> magic_1SER" "4 \<le> length truncated_usf_file"
    "header_version truncated_usf_file = 1"
    by (simp_all add: truncated_usf_file_def magic_1SER_def header_version_def to_signed_def)
  have a': "\<not> fst (USF_load (Suc 0) truncated_usf_file)"
    by (simp add: usf_truncated)
  have b: "take 4 ser_magic_usf_file = magic_1SER"
    by (simp add: ser_magic_usf_file_def magic_1SER_def)
  from load_tpl_fallback [of truncated_usf_file "Suc 0" ascii_alpha None]
    load_tpl_fallback [of ser_magic_usf_file "Suc 0" ascii_alpha None] a a' b ser_ser_magic
  show ?thesis by simp
qed

subsection \<open>The trees of the 1SER parser\<close>

lemma names_loop_inv:
  "names_inv objs \<Longrightarrow> names_inv (names_loop alpha data e p objs)"
proof (induction alpha data e p objs rule: names_loop.induct)
  case (1 alpha data e p objs)
  show ?case
  proof (cases "int p < int e - 10")
    case False
    with "1.prems" show ?thesis by (simp add: names_loop.simps)
  next
    case True
    obtain nm np where rs: "SER_read_string data p = (nm, np)"
      by (cases "SER_read_string data p")
    show ?thesis
    proof (cases "name_ok alpha nm")
      case ok: True
      have "names_inv (objs @ [new_node (int (length objs)) nm])"
        using "1.prems" by (simp add: names_inv_def new_node_def)
      with "1.IH"(1) [OF True rs [symmetric] ok] True rs ok show ?thesis
        by (simp add: names_loop.simps [of alpha data e p objs])
    next
      case no: False
      with "1.IH"(2) [OF True rs [symmetric] no] "1.prems" True rs show ?thesis
        by (simp add: names_loop.simps [of alpha data e p objs])
    qed
  qed
qed

lemma face_loop_eq:
  "face_loop data fo mx idxs fs =
     fs @ filter (\<lambda>f. face_a f < mx \<and> face_b f < mx \<and> face_c f < mx)
            (map (face_at data fo) (takeWhile (\<lambda>i. fo + int i * 6 + 6 \<le> int (length data)) idxs))"
  by (induction idxs arbitrary: fs) (auto simp: Let_def face_at_def)

lemma u16_at_nonneg: "0 \<le> u16_at data off"
  by (simp add: u16_at_def)

lemma face_at_nonneg:
  "0 \<le> face_a (face_at data fo i) \<and> 0 \<le> face_b (face_at data fo i) \<and> 0 \<le> face_c (face_at data fo i)"
  by (simp add: face_at_def u16_at_nonneg)

lemma geometry_mesh_vertices:
  "int (length (vertices (geometry_mesh data))) = mx \<Longrightarrow>
   faces (geometry_mesh data) =
     filter (\<lambda>f. face_a f < mx \<and> face_b f < mx \<and> face_c f < mx)
       (map (face_at data (vertex_data_end data))
          (takeWhile (\<lambda>i. vertex_data_end data + int i * 6 + 6 \<le> int (length data))
             [0..<nat (min (int (length data) - vertex_data_end data) 1000000 div 6)]))"
  by (simp add: geometry_mesh_def Let_def face_loop_eq empty_mesh_def)

lemma geometry_mesh_faces:
  "faces (geometry_mesh data) =
     filter (face_in_range (geometry_mesh data))
       (map (face_at data (vertex_data_end data))
          (takeWhile (\<lambda>i. vertex_data_end data + int i * 6 + 6 \<le> int (length data))
             [0..<nat (min (int (length data) - vertex_data_end data) 1000000 div 6)]))"
proof -
  have "filter (\<lambda>f. face_a f < mx \<and> face_b f < mx \<and> face_c f < mx) (map (face_at data fo) xs)
        = filter (\<lambda>f. 0 \<le> face_a f \<and> face_a f < mx \<and> 0 \<le> face_b f \<and> face_b f < mx
                       \<and> 0 \<le> face_c f \<and> face_c f < mx) (map (face_at data fo) xs)"
    for mx fo xs
    by (rule filter_cong) (auto simp: face_at_nonneg)
  then show ?thesis
    using geometry_mesh_vertices [OF refl, of data]
    by (simp add: face_in_range_def [abs_def])
qed

lemma geometry_mesh_ok: "mesh_faces_ok (geometry_mesh data)"
  unfolding mesh_faces_ok_def
  by (subst geometry_mesh_faces) (simp add: list_all_iff)


lemma parse_tpl1_keeps:
  "parse_tpl1 p = (res, p1) \<Longrightarrow>
   objects p1 = objects p \<and> tpl_geom_data p1 = tpl_geom_data p \<and> tpl_data p1 = tpl_data p
   \<and> ser_root p1 = ser_root p"
  by (auto simp: parse_tpl1_def split: option.splits sum.splits)

lemma parse_ogm1_names:
  "parse_ogm1 alpha p = (Inr True, p2) \<Longrightarrow>
   (\<exists>e s. objects p2 = names_loop alpha (tpl_data p) e s (objects p))
   \<and> tpl_geom_data p2 = tpl_geom_data p \<and> ser_root p2 = ser_root p"
  by (auto simp: parse_ogm1_def parse_object_names_def Let_def split: option.splits sum.splits
        intro!: exI)

lemma SER_load_root:
  assumes "SER_load alpha file data_file = (True, sp)" and "ser_root sp = Some t"
  shows "\<exists>named ms. t = TPLNode (- 1) [46, 114, 111, 111, 116, 46] identity identity None (ms @ named) []
           \<and> names_inv named
           \<and> (ms = [] \<or> (\<exists>g. data_file = Some g \<and> ms = [mesh_node_of (geometry_mesh g)]))"
proof -
  define p0 where "p0 = (case data_file of None \<Rightarrow> SERParser_init\<lparr>tpl_data := file\<rparr>
                         | Some g \<Rightarrow> SERParser_init\<lparr>tpl_data := file, tpl_geom_data := g\<rparr>)"
  have p0: "objects p0 = []" "ser_root p0 = None"
    "tpl_geom_data p0 = (case data_file of None \<Rightarrow> [] | Some g \<Rightarrow> g)"
    by (simp_all add: p0_def SERParser_init_def split: option.splits)
  from assms(1) have sp: "SER_parse alpha p0 = (True, sp)"
    by (auto simp: SER_load_def Let_def p0_def split: if_splits option.splits)
  obtain r1 p1 where t1: "parse_tpl1 p0 = (r1, p1)" by (cases "parse_tpl1 p0")
  obtain r2 p2 where t2: "parse_ogm1 alpha p1 = (r2, p2)" by (cases "parse_ogm1 alpha p1")
  from sp t1 t2 have r: "r1 = Inr True" "r2 = Inr True"
    and spd: "sp = build_hierarchy (parse_geometry p2)"
    by (auto simp: SER_parse_def split: sum.splits bool.splits)
  from parse_tpl1_keeps [OF t1] p0 have p1: "objects p1 = []" "ser_root p1 = None"
    "tpl_geom_data p1 = (case data_file of None \<Rightarrow> [] | Some g \<Rightarrow> g)" by simp_all
  from parse_ogm1_names [OF t2 [unfolded r]] p1 obtain e s where
    p2: "objects p2 = names_loop alpha (tpl_data p1) e s []" "ser_root p2 = None"
    "tpl_geom_data p2 = (case data_file of None \<Rightarrow> [] | Some g \<Rightarrow> g)" by auto
  have inv: "names_inv (objects p2)"
    unfolding p2(1) by (rule names_loop_inv) (simp add: names_inv_def)
  define ms where "ms = (if tpl_geom_data p2 = [] then []
                         else if vertices (geometry_mesh (tpl_geom_data p2)) \<noteq> []
                                 \<and> faces (geometry_mesh (tpl_geom_data p2)) \<noteq> []
                              then [mesh_node_of (geometry_mesh (tpl_geom_data p2))] else [])"
  have ms: "objects (parse_geometry p2) = ms @ objects p2"
    "ser_root (parse_geometry p2) = None"
    by (simp_all add: parse_geometry_def Let_def ms_def p2(2))
  have ms3: "ms = [] \<or> (\<exists>g. data_file = Some g \<and> ms = [mesh_node_of (geometry_mesh g)])"
    using p2(3) by (cases data_file) (simp_all add: ms_def)
  from assms(2) spd ms ms3 show ?thesis
    using inv by (auto simp: build_hierarchy_def split: if_splits)
qed

lemma uids_leaves:
  "\<forall>n \<in> set xs. children n = [] \<Longrightarrow> concat (map uids xs) = map uid xs"
proof (induction xs)
  case Nil
  then show ?case by simp
next
  case (Cons x xs)
  then show ?case by (cases x) simp
qed

lemma meshes_leaves:
  "\<forall>n \<in> set xs. mesh n = None \<and> children n = [] \<Longrightarrow> concat (map meshes_of xs) = []"
proof (induction xs)
  case Nil
  then show ?case by simp
next
  case (Cons x xs)
  then show ?case by (cases x) simp
qed

theorem ser_tree_uids:
  assumes "SER_load alpha file data_file = (True, sp)" and "ser_root sp = Some t"
  shows "uid t = - 1
    \<and> (\<exists>named ms. children t = ms @ named
          \<and> (ms = [] \<or> (\<exists>g. data_file = Some g \<and> ms = [mesh_node_of (geometry_mesh g)]))
          \<and> concat (map uids named) = map int [0..<length named]
          \<and> distinct (uid t # concat (map uids named)))"
proof -
  from SER_load_root [OF assms] obtain named ms where
    t: "t = TPLNode (- 1) [46, 114, 111, 111, 116, 46] identity identity None (ms @ named) []"
    and inv: "names_inv named"
    and ms: "ms = [] \<or> (\<exists>g. data_file = Some g \<and> ms = [mesh_node_of (geometry_mesh g)])"
    by blast
  from inv have u: "concat (map uids named) = map int [0..<length named]"
    by (simp add: names_inv_def uids_leaves)
  have d: "distinct (uid t # concat (map uids named))"
    unfolding u t by (auto simp: distinct_map)
  have "children t = ms @ named"
    by (simp add: t)
  with ms u d have "\<exists>named ms. children t = ms @ named
          \<and> (ms = [] \<or> (\<exists>g. data_file = Some g \<and> ms = [mesh_node_of (geometry_mesh g)]))
          \<and> concat (map uids named) = map int [0..<length named]
          \<and> distinct (uid t # concat (map uids named))"
    by blast
  then show ?thesis
    by (simp add: t)
qed

theorem ser_faces_in_range:
  assumes "SER_load alpha file data_file = (True, sp)" and "ser_root sp = Some t"
  shows "tree_faces_ok t
    \<and> (\<forall>g. data_file = Some g \<longrightarrow>
          faces (geometry_mesh g) =
            filter (face_in_range (geometry_mesh g))
              (map (face_at g (vertex_data_end g))
                 (takeWhile (\<lambda>i. vertex_data_end g + int i * 6 + 6 \<le> int (length g))
                    [0..<nat (min (int (length g) - vertex_data_end g) 1000000 div 6)])))"
proof -
  from SER_load_root [OF assms] obtain named ms where
    t: "t = TPLNode (- 1) [46, 114, 111, 111, 116, 46] identity identity None (ms @ named) []"
    and inv: "names_inv named"
    and ms: "ms = [] \<or> (\<exists>g. data_file = Some g \<and> ms = [mesh_node_of (geometry_mesh g)])"
    by blast
  from inv have none: "concat (map meshes_of named) = []"
    by (simp add: names_inv_def meshes_leaves)
  from ms have "list_all mesh_faces_ok (concat (map meshes_of ms))"
    by (auto simp: mesh_node_of_def geometry_mesh_ok)
  then have "tree_faces_ok t"
    unfolding tree_faces_ok_def t by (simp add: none)
  then show ?thesis
    by (simp add: geometry_mesh_faces)
qed

lemma zero_test_positions: "test_positions zero_geometry = [64, 68, 72, 56]"
  by (simp add: test_positions_def scaled_len_def zero_geometry_def float_eval)

lemma zero_find: "find_face_data_offset zero_geometry = 0"
  unfolding find_face_data_offset_def zero_test_positions
  by (simp add: zero_geometry_def looks_valid_def u16_at_def replicate_num upt_0_num upt_1_num)

lemma zero_vertex_data_end: "vertex_data_end zero_geometry = 72"
  unfolding vertex_data_end_def zero_find
  by (simp add: scaled_len_def zero_geometry_def float_eval)

lemma zero_geometry_mesh:
  "geometry_mesh zero_geometry =
     empty_mesh\<lparr>vertices := [(Fin 0, Fin 0, Fin 0)],
                normals := [float3 (decompress_normal_from_int16 0)],
                faces := [Face 0 0 0]\<rparr>"
  unfolding geometry_mesh_def zero_vertex_data_end
  apply (simp add: upt_0_num upt_1_num)
  apply (simp add: zero_geometry_def replicate_num i16_at_def u16_at_def to_signed_def
       POSITION_SCALE_def fmul_def float_of_int_def py_round4_def float3_def)
  apply (simp add: float_eval float3_def empty_mesh_def)
  done

lemma named_names:
  "names_loop ascii_alpha named_ser_file 153 130 [] = [new_node 0 [97, 98], new_node 1 [99, 100]]"
  by (simp add: names_loop.simps SER_read_string_def named_ser_file_def magic_1SER_def
        magic_TPL1_def magic_OGM1_def replicate_num Let_def decode_strict_def rstrip0_def
        name_ok_def py_isalpha_def)

lemma named_ser_load:
  "fst (SER_load ascii_alpha named_ser_file (Some zero_geometry))
   \<and> ser_root (snd (SER_load ascii_alpha named_ser_file (Some zero_geometry)))
       = Some (TPLNode (- 1) [46, 114, 111, 111, 116, 46] identity identity None
                 [mesh_node_of (geometry_mesh zero_geometry),
                  new_node 0 [97, 98], new_node 1 [99, 100]] [])"
proof -
  have find: "bytes_find magic_TPL1 named_ser_file = Some 4"
    "bytes_find magic_OGM1 named_ser_file = Some 16"
    "ogm1_end named_ser_file = 153"
    "take 4 named_ser_file = magic_1SER" "length named_ser_file = 153"
    by (simp_all add: named_ser_file_def magic_1SER_def magic_TPL1_def magic_OGM1_def
          magic_ANIM_def replicate_num ogm1_end_def)
  have nonempty: "zero_geometry \<noteq> []"
    by (simp add: zero_geometry_def replicate_num)
  show ?thesis
    by (simp add: SER_load_def SER_parse_def parse_tpl1_def parse_ogm1_def parse_object_names_def
          find unpack_from_u32_def unpack_from_u16_def SERParser_init_def Let_def named_names
          parse_geometry_def nonempty zero_geometry_mesh build_hierarchy_def empty_mesh_def)
qed

subsection \<open>The uids and faces of parsed trees\<close>

lemma bindP_InrE:
  assumes "bindP m f r = Inr y"
  obtains x r1 where "m r = Inr (x, r1)" and "f x r1 = Inr y"
  using assms by (auto simp: bindP_def split: sum.splits)

lemma unpack_i32_Inr:
  "unpack_i32 r = Inr (v, r1) \<Longrightarrow>
   pos r + 4 \<le> length (buf r) \<and> v = to_signed 32 (le_uint (take 4 (drop (pos r) (buf r))))
   \<and> r1 = r\<lparr>pos := pos r + 4\<rparr>"
  by (auto simp: unpack_i32_def bindP_def returnP_def read_exact_def reader_read_def Let_def
        split: if_splits)

lemma parse_node_head_uid:
  assumes "parse_node_head r = Inr (t, r')"
  shows "pos r + 8 \<le> length (buf r)
         \<and> uid t = to_signed 32 (le_uint (take 4 (drop (pos r + 4) (buf r))))"
proof -
  from assms obtain version r1 u r2 where
    v: "unpack_i32 r = Inr (version, r1)" and u: "unpack_i32 r1 = Inr (u, r2)" and t: "uid t = u"
    unfolding parse_node_head_def
    by (elim bindP_InrE) (auto simp: returnP_def)
  from unpack_i32_Inr [OF v] unpack_i32_Inr [OF u] t show ?thesis
    by simp
qed

lemma parse_node_uid:
  assumes "parse_node limit r = Inr (t, r')"
  shows "pos r + 8 \<le> length (buf r)
         \<and> uid t = to_signed 32 (le_uint (take 4 (drop (pos r + 4) (buf r))))"
proof (cases limit)
  case 0
  with assms show ?thesis by simp
next
  case (Suc d)
  with assms obtain h r1 where h: "parse_node_head r = Inr (h, r1)" and "uid t = uid h"
    by (auto simp: returnP_def with_children_def elim!: bindP_InrE)
  with parse_node_head_uid [OF h] show ?thesis by simp
qed

lemma named_ser_load_none:
  "fst (SER_load ascii_alpha named_ser_file None)
   \<and> ser_root (snd (SER_load ascii_alpha named_ser_file None))
       = Some (TPLNode (- 1) [46, 114, 111, 111, 116, 46] identity identity None
                 [new_node 0 [97, 98], new_node 1 [99, 100]] [])"
proof -
  have find: "bytes_find magic_TPL1 named_ser_file = Some 4"
    "bytes_find magic_OGM1 named_ser_file = Some 16"
    "ogm1_end named_ser_file = 153"
    "take 4 named_ser_file = magic_1SER" "length named_ser_file = 153"
    by (simp_all add: named_ser_file_def magic_1SER_def magic_TPL1_def magic_OGM1_def
          magic_ANIM_def replicate_num ogm1_end_def)
  show ?thesis
    by (simp add: SER_load_def SER_parse_def parse_tpl1_def parse_ogm1_def parse_object_names_def
          find unpack_from_u32_def unpack_from_u16_def SERParser_init_def Let_def named_names
          parse_geometry_def build_hierarchy_def)
qed

lemma dup_child_node:
  "parse_node (Suc 0) \<lparr>buf = dup_uid_usf_file, pos = 253\<rparr> =
     Inr (TPLNode 0 [] (replicate 4 (Fin 0, Fin 0, Fin 0, Fin 0))
            (replicate 4 (Fin 0, Fin 0, Fin 0, Fin 0)) None [] [],
          \<lparr>buf = dup_uid_usf_file, pos = 485\<rparr>)"
  by (simp add: dup_uid_usf_file_def usf_eval)

text \<open>
  C3, amended.  In a tree returned by a successful SER parse the root has uid \<open>-1\<close> and
  its children are the named objects recovered from the \<open>OGM1\<close> section, after the
  geometry node if there is one; the named objects have the uids 0, 1, 2, ... in order,
  so they are pairwise distinct and distinct from the root's.  In a USF tree every node
  has the uid stored in its record (the second 32-bit field), whatever the other nodes
  have.
\<close>

theorem tree_uids:
  "(SER_load alpha file data_file = (True, sp) \<and> ser_root sp = Some t
    \<longrightarrow> uid t = - 1
        \<and> (\<exists>named ms. children t = ms @ named
              \<and> (ms = [] \<or> (\<exists>g. data_file = Some g \<and> ms = [mesh_node_of (geometry_mesh g)]))
              \<and> concat (map uids named) = map int [0..<length named]
              \<and> distinct (uid t # concat (map uids named))))
   \<and> (parse_node limit r = Inr (n, r')
    \<longrightarrow> uid n = to_signed 32 (le_uint (take 4 (drop (pos r + 4) (buf r)))))"
  using ser_tree_uids [of alpha "file" data_file sp t] parse_node_uid [of limit r n r']
  by blast

theorem tree_uids_witness:
  "(SER_load ascii_alpha named_ser_file None = (True, snd (SER_load ascii_alpha named_ser_file None))
    \<and> ser_root (snd (SER_load ascii_alpha named_ser_file None))
        = Some (TPLNode (- 1) [46, 114, 111, 111, 116, 46] identity identity None
                  [new_node 0 [97, 98], new_node 1 [99, 100]] [])
    \<and> uids (TPLNode (- 1) [46, 114, 111, 111, 116, 46] identity identity None
               [new_node 0 [97, 98], new_node 1 [99, 100]] []) = [- 1, 0, 1])
   \<and> (parse_node (Suc 0) \<lparr>buf = dup_uid_usf_file, pos = 253\<rparr>
        = Inr (TPLNode 0 [] (replicate 4 (Fin 0, Fin 0, Fin 0, Fin 0))
                 (replicate 4 (Fin 0, Fin 0, Fin 0, Fin 0)) None [] [],
               \<lparr>buf = dup_uid_usf_file, pos = 485\<rparr>)
    \<and> to_signed 32 (le_uint (take 4 (drop (253 + 4) dup_uid_usf_file))) = 0)"
proof -
  have l: "SER_load ascii_alpha named_ser_file None
           = (True, snd (SER_load ascii_alpha named_ser_file None))"
    using named_ser_load_none by (cases "SER_load ascii_alpha named_ser_file None") simp
  have u: "uids (TPLNode (- 1) [46, 114, 111, 111, 116, 46] identity identity None
               [new_node 0 [97, 98], new_node 1 [99, 100]] []) = [- 1, 0, 1]"
    by (simp add: new_node_def)
  from tree_uids [of ascii_alpha named_ser_file None "snd (SER_load ascii_alpha named_ser_file None)"
      "TPLNode (- 1) [46, 114, 111, 111, 116, 46] identity identity None
         [new_node 0 [97, 98], new_node 1 [99, 100]] []"
      "Suc 0" "\<lparr>buf = dup_uid_usf_file, pos = 253\<rparr>"
      "TPLNode 0 [] (replicate 4 (Fin 0, Fin 0, Fin 0, Fin 0))
         (replicate 4 (Fin 0, Fin 0, Fin 0, Fin 0)) None [] []"
      "\<lparr>buf = dup_uid_usf_file, pos = 485\<rparr>"]
    l u named_ser_load_none dup_child_node
  show ?thesis by simp
qed

text \<open>
  C3, as stated, fails: this USF file parses successfully to a root with one child, and
  both nodes have uid 0.
\<close>

theorem usf_duplicate_uids:
  "fst (USF_load (Suc (Suc 0)) dup_uid_usf_file)
   \<and> map_option uids (usf_root (snd (USF_load (Suc (Suc 0)) dup_uid_usf_file))) = Some [0, 0]
   \<and> map_option uids_distinct (usf_root (snd (USF_load (Suc (Suc 0)) dup_uid_usf_file)))
       = Some False"
  by (simp add: usf_dup_uid uids_distinct_def)

lemma parse_face_Inr:
  "parse_face r = Inr (f, r') \<Longrightarrow>
   f = Face (int (le_uint (take 4 (drop (pos r) (buf r)))) AND 536870911) 0 0"
  by (auto simp: parse_face_def unpack_u32_def bindP_def returnP_def read_exact_def
        reader_read_def Let_def split: if_splits)

text \<open>
  C7, amended.  In every mesh of a tree returned by a successful SER parse, every index
  of every face is less than the number of vertices: the faces are exactly the face
  records, in order, whose three indices are in range, the others being dropped while
  the parse goes on.  A USF face record has the low 29 bits of its 32-bit field (a
  material index) in \<open>a\<close> and 0 in \<open>b\<close> and \<open>c\<close>.
\<close>

theorem faces_in_range:
  "(SER_load alpha file data_file = (True, sp) \<and> ser_root sp = Some t
    \<longrightarrow> tree_faces_ok t
        \<and> (\<forall>g. data_file = Some g \<longrightarrow>
              faces (geometry_mesh g) =
                filter (face_in_range (geometry_mesh g))
                  (map (face_at g (vertex_data_end g))
                     (takeWhile (\<lambda>i. vertex_data_end g + int i * 6 + 6 \<le> int (length g))
                        [0..<nat (min (int (length g) - vertex_data_end g) 1000000 div 6)]))))
   \<and> (parse_face r = Inr (f, r')
    \<longrightarrow> f = Face (int (le_uint (take 4 (drop (pos r) (buf r)))) AND 536870911) 0 0)"
  using ser_faces_in_range [of alpha "file" data_file sp t] parse_face_Inr [of r f r']
  by blast

theorem faces_in_range_witness:
  "(SER_load ascii_alpha named_ser_file (Some zero_geometry)
      = (True, snd (SER_load ascii_alpha named_ser_file (Some zero_geometry)))
    \<and> ser_root (snd (SER_load ascii_alpha named_ser_file (Some zero_geometry)))
        = Some (TPLNode (- 1) [46, 114, 111, 111, 116, 46] identity identity None
                  [mesh_node_of (geometry_mesh zero_geometry),
                   new_node 0 [97, 98], new_node 1 [99, 100]] [])
    \<and> tree_faces_ok (TPLNode (- 1) [46, 114, 111, 111, 116, 46] identity identity None
                  [mesh_node_of (geometry_mesh zero_geometry),
                   new_node 0 [97, 98], new_node 1 [99, 100]] [])
    \<and> faces (geometry_mesh zero_geometry) = [Face 0 0 0]
    \<and> length (vertices (geometry_mesh zero_geometry)) = 1)
   \<and> (parse_face \<lparr>buf = [5, 0, 0, 224], pos = 0\<rparr> = Inr (Face 5 0 0, \<lparr>buf = [5, 0, 0, 224], pos = 4\<rparr>)
    \<and> Face 5 0 0 = Face (int (le_uint (take 4 (drop 0 [5, 0, 0, 224 :: byte]))) AND 536870911) 0 0)"
proof -
  have l: "SER_load ascii_alpha named_ser_file (Some zero_geometry)
           = (True, snd (SER_load ascii_alpha named_ser_file (Some zero_geometry)))"
    using named_ser_load
    by (cases "SER_load ascii_alpha named_ser_file (Some zero_geometry)") simp
  have pf: "parse_face \<lparr>buf = [5, 0, 0, 224], pos = 0\<rparr>
            = Inr (Face 5 0 0, \<lparr>buf = [5, 0, 0, 224], pos = 4\<rparr>)"
    by (simp add: parse_face_def unpack_u32_def bindP_def returnP_def read_exact_def
          reader_read_def Let_def)
  have g: "faces (geometry_mesh zero_geometry) = [Face 0 0 0]"
    "length (vertices (geometry_mesh zero_geometry)) = 1"
    by (simp_all add: zero_geometry_mesh empty_mesh_def)
  from faces_in_range [of ascii_alpha named_ser_file "Some zero_geometry"
      "snd (SER_load ascii_alpha named_ser_file (Some zero_geometry))"
      "TPLNode (- 1) [46, 114, 111, 111, 116, 46] identity identity None
         [mesh_node_of (geometry_mesh zero_geometry),
          new_node 0 [97, 98], new_node 1 [99, 100]] []"
      "\<lparr>buf = [5, 0, 0, 224], pos = 0\<rparr>" "Face 5 0 0" "\<lparr>buf = [5, 0, 0, 224], pos = 4\<rparr>"]
    l named_ser_load pf g
  show ?thesis by simp
qed

text \<open>
  C7, as stated, fails: this USF file parses successfully to a root whose mesh has no
  vertex and one face, the record \<open>Face 0 0 0\<close>.
\<close>

theorem usf_face_out_of_range:
  "fst (USF_load (Suc 0) face_usf_file)
   \<and> map_option meshes_of (usf_root (snd (USF_load (Suc 0) face_usf_file)))
       = Some [empty_mesh\<lparr>faces := [Face 0 0 0]\<rparr>]
   \<and> vertices (empty_mesh\<lparr>faces := [Face 0 0 0]\<rparr>) = []
   \<and> map_option tree_faces_ok (usf_root (snd (USF_load (Suc 0) face_usf_file))) = Some False"
  by (simp add: usf_face tree_faces_ok_def mesh_faces_ok_def face_in_range_def empty_mesh_def)

subsection \<open>Object names\<close>







subsection \<open>Face offset discovery\<close>

lemma score_loop_eq:
  "score_loop data tp idxs vc =
     vc + length (filter (\<lambda>i. looks_valid data (tp + int i * 6))
                    (takeWhile (\<lambda>i. tp + int i * 6 + 6 \<le> int (length data)) idxs))"
  by (induction idxs arbitrary: vc) (auto simp: Let_def)

lemma score_loop_score: "score_loop data test_pos [0..<100] 0 = score data test_pos"
  by (simp add: score_loop_eq score_def)

lemma find_loop_eq: "find_loop data ts = first_candidate data ts"
  by (induction ts) (simp_all add: first_candidate_def Let_def score_loop_eq score_def)

lemma le_uint_bound: "le_uint bs < 256 ^ length bs"
proof (induction bs)
  case Nil
  then show ?case by simp
next
  case (Cons b bs)
  have "unat b < 256"
    using unsigned_less [of b, where ?'a = nat] by simp
  with Cons show ?case by simp
qed

lemma u16_at_bound: "u16_at data off < 65536"
proof -
  have "le_uint (take 2 (drop (nat off) data)) < 256 ^ length (take 2 (drop (nat off) data))"
    by (rule le_uint_bound)
  also have "\<dots> \<le> 256 ^ 2"
    by (rule power_increasing) simp_all
  finally show ?thesis
    by (simp add: u16_at_def)
qed

lemma looks_valid_iff:
  "looks_valid data off \<longleftrightarrow>
     u16_at data off \<noteq> u16_at data (off + 2) \<and> u16_at data (off + 2) \<noteq> u16_at data (off + 4)
     \<and> u16_at data off \<noteq> u16_at data (off + 4)"
  using u16_at_bound [of data off] u16_at_bound [of data "off + 2"] u16_at_bound [of data "off + 4"]
  by (simp add: looks_valid_def Let_def)


lemma take_drop_blocks:
  "\<forall>b \<in> set bs. length b = n \<Longrightarrow> k < length bs \<Longrightarrow>
   take n (drop (n * k) (concat bs)) = bs ! k"
proof (induction bs arbitrary: k)
  case Nil
  then show ?case by simp
next
  case (Cons b bs)
  show ?case
  proof (cases k)
    case 0
    with Cons.prems show ?thesis by simp
  next
    case (Suc j)
    with Cons.prems have "take n (drop (n * j) (concat bs)) = bs ! j"
      by (intro Cons.IH) simp_all
    with Suc Cons.prems show ?thesis by simp
  qed
qed

lemma blob_length: "v \<le> 100 \<Longrightarrow> length (valid_run_blob v) = 3000"
  by (simp add: valid_run_blob_def length_concat sum_list_replicate)

lemma blob_record:
  assumes "k < 500" and "v \<le> 100"
  shows "take 6 (drop (6 * k) (valid_run_blob v))
         = (if 400 \<le> k \<and> k < 400 + v then [1, 0, 2, 0, 3, 0] else replicate 6 0)"
proof -
  let ?bs = "replicate 400 (replicate 6 (0::byte)) @ replicate v [1, 0, 2, 0, 3, 0]
             @ replicate (100 - v) (replicate 6 0)"
  have "take 6 (drop (6 * k) (concat ?bs)) = ?bs ! k"
    using assms by (intro take_drop_blocks) auto
  also have "\<dots> = (if 400 \<le> k \<and> k < 400 + v then [1, 0, 2, 0, 3, 0] else replicate 6 0)"
    using assms by (auto simp: nth_append)
  finally show ?thesis
    by (simp add: valid_run_blob_def)
qed

lemma u16_in_record:
  "j + 2 \<le> 6 \<Longrightarrow>
   u16_at data (int (6 * k) + int j) = int (le_uint (take 2 (drop j (take 6 (drop (6 * k) data)))))"
proof -
  assume "j + 2 \<le> 6"
  then have "take 2 (drop j (take 6 (drop (6 * k) data))) = take 2 (drop (6 * k + j) data)"
    by (simp add: drop_take add.commute min_def)
  moreover have "nat (int (6 * k) + int j) = 6 * k + j"
    by simp
  ultimately show ?thesis
    by (simp only: u16_at_def)
qed

lemma blob_valid:
  assumes "k < 500" and "v \<le> 100"
  shows "looks_valid (valid_run_blob v) (int (6 * k)) \<longleftrightarrow> 400 \<le> k \<and> k < 400 + v"
proof -
  have a: "u16_at (valid_run_blob v) (int (6 * k)) = (if 400 \<le> k \<and> k < 400 + v then 1 else 0)"
    using u16_in_record [of 0 "valid_run_blob v" k] blob_record [OF assms]
    by (simp add: replicate_num)
  have b: "u16_at (valid_run_blob v) (int (6 * k) + 2) = (if 400 \<le> k \<and> k < 400 + v then 2 else 0)"
    using u16_in_record [of 2 "valid_run_blob v" k] blob_record [OF assms]
    by (simp add: replicate_num)
  have c: "u16_at (valid_run_blob v) (int (6 * k) + 4) = (if 400 \<le> k \<and> k < 400 + v then 3 else 0)"
    using u16_in_record [of 4 "valid_run_blob v" k] blob_record [OF assms]
    by (simp add: replicate_num)
  show ?thesis
    unfolding looks_valid_iff a b c by simp
qed

lemma takeWhile_upt: "takeWhile (\<lambda>i. i < n) [0..<k] = [0..<min k n]"
proof (induction k)
  case 0
  then show ?case by simp
next
  case (Suc k)
  show ?case
  proof (cases "k < n")
    case True
    with Suc show ?thesis by (simp add: takeWhile_append min_def)
  next
    case False
    with Suc show ?thesis by (auto simp: takeWhile_append min_def)
  qed
qed

lemma blob_score:
  assumes "m \<le> 500" and "v \<le> 100"
  shows "score (valid_run_blob v) (int (6 * m))
         = length (filter (\<lambda>i. 400 \<le> m + i \<and> m + i < 400 + v) [0..<min 100 (500 - m)])"
proof -
  have "(\<lambda>i. int (6 * m) + int i * 6 + 6 \<le> int (length (valid_run_blob v))) = (\<lambda>i. i < 500 - m)"
    using assms by (auto simp: blob_length fun_eq_iff)
  then have tw: "takeWhile (\<lambda>i. int (6 * m) + int i * 6 + 6 \<le> int (length (valid_run_blob v))) [0..<100]
             = [0..<min 100 (500 - m)]"
    by (simp only: takeWhile_upt)
  have "filter (\<lambda>i. looks_valid (valid_run_blob v) (int (6 * m) + int i * 6)) [0..<min 100 (500 - m)]
        = filter (\<lambda>i. 400 \<le> m + i \<and> m + i < 400 + v) [0..<min 100 (500 - m)]"
  proof (rule filter_cong [OF refl])
    fix i assume "i \<in> set [0..<min 100 (500 - m)]"
    then have "m + i < 500" by auto
    from blob_valid [OF this assms(2)]
    show "looks_valid (valid_run_blob v) (int (6 * m) + int i * 6)
        = (400 \<le> m + i \<and> m + i < 400 + v)"
      by (simp add: algebra_simps)
  qed
  then show ?thesis
    unfolding score_def tw by simp
qed

lemma blob_scores_80:
  "score (valid_run_blob 80) 2400 = 80" "score (valid_run_blob 80) 2550 = 55"
  "score (valid_run_blob 80) 2700 = 30" "score (valid_run_blob 80) 2100 = 50"
  using blob_score [of 400 80] blob_score [of 425 80] blob_score [of 450 80] blob_score [of 350 80]
  by (simp_all add: upt_0_num upt_1_num)

lemma blob_scores_100: "score (valid_run_blob 100) 2400 = 100"
  using blob_score [of 400 100]
  by (simp add: upt_0_num upt_1_num)

lemma blob_test_positions:
  "v \<le> 100 \<Longrightarrow> test_positions (valid_run_blob v) = [2400, 2550, 2700, 2100]"
  by (simp add: test_positions_def scaled_len_def blob_length float_eval)

lemma blob_find_80: "find_face_data_offset (valid_run_blob 80) = 0"
  by (simp add: find_face_data_offset_def find_loop_eq blob_test_positions first_candidate_def
        blob_scores_80)

lemma blob_find_100: "find_face_data_offset (valid_run_blob 100) = 2400"
  by (simp add: find_face_data_offset_def find_loop_eq blob_test_positions first_candidate_def
        blob_scores_100)

lemma blob_fallback: "v \<le> 100 \<Longrightarrow> scaled_len (valid_run_blob v) (9 / 10) = 2700"
  by (simp add: scaled_len_def blob_length float_eval)

text \<open>
  C5, amended.  The face-offset search tests the candidates \<open>int(data_len * f)\<close> for
  \<open>f\<close> = 0.8, 0.85, 0.9, 0.7, in this order, each aligned down to a multiple of 6.  The score of a
  candidate is the number of valid records among the first 100 six-byte records from
  it, as far as they fit into the data; a record is valid when its three unsigned 16-bit
  indices are pairwise distinct (each is below the bound 100000 anyway).  The first
  candidate whose score is more than 80 is the result, and the result is 0 when there is
  none; the vertex data then ends, and the face data starts, at \<open>int(data_len * 0.9)\<close>.
\<close>

theorem face_offset_discovery:
  "find_face_data_offset data
     = first_candidate data [scaled_len data (8 / 10), scaled_len data (85 / 100),
                             scaled_len data (9 / 10), scaled_len data (7 / 10)]
   \<and> score_loop data test_pos [0..<100] 0 = score data test_pos
   \<and> (looks_valid data off \<longleftrightarrow>
        u16_at data off \<noteq> u16_at data (off + 2) \<and> u16_at data (off + 2) \<noteq> u16_at data (off + 4)
        \<and> u16_at data off \<noteq> u16_at data (off + 4))
   \<and> vertex_data_end data
       = (if 0 < find_face_data_offset data then find_face_data_offset data
          else scaled_len data (9 / 10))"
  by (simp add: find_face_data_offset_def find_loop_eq test_positions_def score_loop_score
        looks_valid_iff vertex_data_end_def Let_def)

theorem face_offset_discovery_witness:
  "find_face_data_offset (valid_run_blob 100) = 2400
   \<and> first_candidate (valid_run_blob 100) [2400, 2550, 2700, 2100] = 2400
   \<and> score_loop (valid_run_blob 100) 2400 [0..<100] 0 = 100
   \<and> vertex_data_end (valid_run_blob 100) = 2400"
  using face_offset_discovery [of "valid_run_blob 100" 2400 0]
  by (simp add: blob_find_100 blob_scores_100 first_candidate_def)

text \<open>
  C5, as stated, fails: in this data of 3000 bytes the candidate at 0.8 of the length is
  2400, a multiple of 6; 100 records fit from there and exactly 80 of them are valid, but
  it is not accepted: the search returns 0 and the vertex data ends at 2700.
\<close>

theorem eighty_valid_not_accepted:
  "length (valid_run_blob 80) = 3000
   \<and> test_positions (valid_run_blob 80) = [2400, 2550, 2700, 2100]
   \<and> score_loop (valid_run_blob 80) 2400 [0..<100] 0 = 80
   \<and> find_face_data_offset (valid_run_blob 80) = 0
   \<and> vertex_data_end (valid_run_blob 80) = 2700"
  by (simp add: blob_length blob_test_positions score_loop_score blob_scores_80
        blob_find_80 vertex_data_end_def blob_fallback)

section \<open>Float arithmetic and the normals\<close>

lemma pow2_powr: "pow2 k = 2 powr (of_int k)"
proof (cases "0 \<le> k")
  case True
  then have "(2::real) powr (of_int k) = 2 powr (real (nat k))" by simp
  also have "\<dots> = 2 ^ nat k" by (simp add: powr_realpow)
  finally show ?thesis using True by (simp add: pow2_def)
next
  case False
  then have "(2::real) powr (of_int k) = 2 powr (- real (nat (- k)))" by simp
  also have "\<dots> = 1 / 2 powr (real (nat (- k)))" by (simp add: powr_minus_divide)
  also have "\<dots> = 1 / 2 ^ nat (- k)" by (simp add: powr_realpow)
  finally show ?thesis using False by (simp add: pow2_def)
qed

lemma pow2_pos: "0 < pow2 k"
  by (simp add: pow2_powr)

lemma pow2_add: "pow2 (a + b) = pow2 a * pow2 b"
  by (simp add: pow2_powr powr_add)

lemma pow2_mono: "a \<le> b \<Longrightarrow> pow2 a \<le> pow2 b"
  by (simp add: pow2_powr)

lemma pow2_0: "pow2 0 = 1" and pow2_1: "pow2 1 = 2" and pow2_m1: "pow2 (- 1) = 1 / 2"
  by (simp_all add: pow2_def)

lemma pow2_Suc: "pow2 (k + 1) = 2 * pow2 k"
  by (simp add: pow2_add pow2_1)

lemma pow2_pred: "pow2 (k - 1) = pow2 k / 2"
  using pow2_add [of k "- 1"] by (simp add: pow2_m1)

subsection \<open>Rounding to the nearest integer\<close>

lemma rne_cases: "rne x = \<lfloor>x\<rfloor> \<or> rne x = \<lfloor>x\<rfloor> + 1"
  by (simp add: rne_def Let_def)

lemma rne_error: "\<bar>of_int (rne x) - x\<bar> \<le> 1 / 2"
proof -
  define d where "d = x - of_int \<lfloor>x\<rfloor>"
  have d: "0 \<le> d" "d < 1"
    unfolding d_def by linarith+
  have x: "x = of_int \<lfloor>x\<rfloor> + d"
    by (simp add: d_def)
  have "rne x = (if d < 1/2 then \<lfloor>x\<rfloor> else if 1/2 < d then \<lfloor>x\<rfloor> + 1
                 else if even \<lfloor>x\<rfloor> then \<lfloor>x\<rfloor> else \<lfloor>x\<rfloor> + 1)"
    by (simp add: rne_def Let_def d_def)
  then have "of_int (rne x) - x = (if d < 1/2 then - d else if 1/2 < d then 1 - d
                 else if even \<lfloor>x\<rfloor> then - d else 1 - d)"
    using x by (simp split: if_splits)
  with d show ?thesis
    by (simp split: if_splits)
qed

lemma rne_of_int: "rne (of_int n) = n"
  by (simp add: rne_def)

lemma rne_mono:
  assumes "x \<le> y"
  shows "rne x \<le> rne y"
proof (cases "\<lfloor>x\<rfloor> = \<lfloor>y\<rfloor>")
  case True
  with assms have "x - of_int \<lfloor>x\<rfloor> \<le> y - of_int \<lfloor>y\<rfloor>" by simp
  with True show ?thesis
    by (simp add: rne_def Let_def)
next
  case False
  with assms have "\<lfloor>x\<rfloor> < \<lfloor>y\<rfloor>"
    using floor_mono [of x y] by linarith
  with rne_cases [of x] rne_cases [of y] show ?thesis
    by linarith
qed

lemma rne_minus: "rne (- x) = - rne x"
proof (cases "x = of_int \<lfloor>x\<rfloor>")
  case True
  then obtain n where "x = of_int n" ..
  then show ?thesis
    using rne_of_int [of n] rne_of_int [of "- n"] by simp
next
  case False
  then have lt: "of_int \<lfloor>x\<rfloor> < x"
    using of_int_floor_le [of x] by linarith
  have "\<lfloor>- x\<rfloor> = - \<lfloor>x\<rfloor> - 1"
  proof (rule floor_unique)
    show "of_int (- \<lfloor>x\<rfloor> - 1) \<le> - x"
      using floor_less_iff [of x "\<lfloor>x\<rfloor> + 1"] by simp linarith
    show "- x < of_int (- \<lfloor>x\<rfloor> - 1) + 1"
      using lt by simp
  qed
  then show ?thesis
    using lt by (auto simp: rne_def Let_def)
qed

subsection \<open>The binary exponent\<close>

lemma bexp_up_range: "0 \<le> bexp_up n a \<and> bexp_up n a \<le> int n"
proof (induction n a rule: bexp_up.induct)
  case (1 n x)
  show ?case
  proof (cases "n = 0 \<or> x < 2")
    case True
    then show ?thesis by (simp add: bexp_up.simps [of n x])
  next
    case False
    with "1.IH" [OF False] show ?thesis
      by (simp add: bexp_up.simps [of n x])
  qed
qed

lemma bexp_up_lower: "1 \<le> a \<Longrightarrow> pow2 (bexp_up n a) \<le> a"
proof (induction n a rule: bexp_up.induct)
  case (1 n x)
  show ?case
  proof (cases "n = 0 \<or> x < 2")
    case True
    with "1.prems" show ?thesis by (simp add: bexp_up.simps [of n x] pow2_0)
  next
    case False
    then have "1 \<le> x / 2" by simp
    from "1.IH" [OF False this] have "2 * pow2 (bexp_up (n - 1) (x / 2)) \<le> x" by simp
    with False show ?thesis
      using pow2_Suc [of "bexp_up (n - 1) (x / 2)"]
      by (simp add: bexp_up.simps [of n x] add.commute)
  qed
qed

lemma bexp_up_upper: "a < pow2 (bexp_up n a + 1) \<or> bexp_up n a = int n"
proof (induction n a rule: bexp_up.induct)
  case (1 n x)
  show ?case
  proof (cases "n = 0 \<or> x < 2")
    case True
    then show ?thesis by (auto simp: bexp_up.simps [of n x] pow2_1)
  next
    case False
    from "1.IH" [OF False] False show ?thesis
      using pow2_Suc [of "bexp_up (n - 1) (x / 2) + 1"]
      by (auto simp: bexp_up.simps [of n x] add.commute)
  qed
qed

lemma bexp_up_mono: "a \<le> b \<Longrightarrow> bexp_up n a \<le> bexp_up n b"
proof (induction n a arbitrary: b rule: bexp_up.induct)
  case (1 n x)
  show ?case
  proof (cases "n = 0 \<or> x < 2")
    case True
    then show ?thesis
      using bexp_up_range [of n b] by (simp add: bexp_up.simps [of n x])
  next
    case False
    with "1.prems" have b: "\<not> (n = 0 \<or> b < 2)" by auto
    from "1.prems" have "x / 2 \<le> b / 2" by simp
    from "1.IH" [OF False this] False b show ?thesis
      by (simp add: bexp_up.simps [of n x] bexp_up.simps [of n b])
  qed
qed

lemma bexp_dn_range: "- int n \<le> bexp_dn n a \<and> bexp_dn n a \<le> 0"
proof (induction n a rule: bexp_dn.induct)
  case (1 n x)
  show ?case
  proof (cases "n = 0 \<or> 1 \<le> x")
    case True
    then show ?thesis by (simp add: bexp_dn.simps [of n x])
  next
    case False
    with "1.IH" [OF False] show ?thesis
      by (simp add: bexp_dn.simps [of n x])
  qed
qed

lemma bexp_dn_upper: "0 < a \<Longrightarrow> a < 2 \<Longrightarrow> a < pow2 (bexp_dn n a + 1)"
proof (induction n a rule: bexp_dn.induct)
  case (1 n x)
  show ?case
  proof (cases "n = 0 \<or> 1 \<le> x")
    case True
    with "1.prems" show ?thesis by (simp add: bexp_dn.simps [of n x] pow2_1)
  next
    case False
    with "1.prems" have "0 < 2 * x" "2 * x < 2" by simp_all
    from "1.IH" [OF False this] have "2 * x < pow2 (bexp_dn (n - 1) (2 * x) + 1)" .
    with False show ?thesis
      using pow2_Suc [of "bexp_dn (n - 1) (2 * x)"]
      by (simp add: bexp_dn.simps [of n x])
  qed
qed

lemma bexp_dn_lower: "pow2 (bexp_dn n a) \<le> a \<or> bexp_dn n a = - int n"
proof (induction n a rule: bexp_dn.induct)
  case (1 n x)
  show ?case
  proof (cases "n = 0 \<or> 1 \<le> x")
    case True
    then show ?thesis by (auto simp: bexp_dn.simps [of n x] pow2_0)
  next
    case False
    from "1.IH" [OF False] False show ?thesis
      using pow2_pred [of "bexp_dn (n - 1) (2 * x)"]
      by (auto simp: bexp_dn.simps [of n x])
  qed
qed

lemma bexp_dn_mono: "a \<le> b \<Longrightarrow> bexp_dn n a \<le> bexp_dn n b"
proof (induction n a arbitrary: b rule: bexp_dn.induct)
  case (1 n x)
  show ?case
  proof (cases "n = 0 \<or> 1 \<le> b")
    case True
    then show ?thesis
      using bexp_dn_range [of n x] by (auto simp: bexp_dn.simps [of n b] bexp_dn.simps [of 0 x])
  next
    case False
    with "1.prems" have x: "\<not> (n = 0 \<or> 1 \<le> x)" by auto
    from "1.prems" have "2 * x \<le> 2 * b" by simp
    from "1.IH" [OF x this] False x show ?thesis
      by (simp add: bexp_dn.simps [of n x] bexp_dn.simps [of n b])
  qed
qed

lemma bexp_mono: "a \<le> b \<Longrightarrow> bexp a \<le> bexp b"
  using bexp_up_mono [of a b 1023] bexp_dn_mono [of a b 1022] bexp_dn_range [of 1022 a]
    bexp_up_range [of 1023 b]
  by (auto simp: bexp_def)

lemma bexp_range: "- 1022 \<le> bexp a \<and> bexp a \<le> 1023"
  using bexp_up_range [of 1023 a] bexp_dn_range [of 1022 a]
  by (auto simp: bexp_def)

lemma bexp_lower: "0 < a \<Longrightarrow> pow2 (bexp a) \<le> a \<or> bexp a = - 1022"
  using bexp_up_lower [of a 1023] bexp_dn_lower [of 1022 a]
  by (auto simp: bexp_def)

lemma bexp_upper: "0 < a \<Longrightarrow> a < pow2 (bexp a + 1) \<or> bexp a = 1023"
  using bexp_up_upper [of a 1023] bexp_dn_upper [of a 1022]
  by (auto simp: bexp_def)

subsection \<open>Rounding to binary64\<close>

lemma rnd64_pos:
  "0 < x \<Longrightarrow> rnd64 x = of_int (rne (x / pow2 (bexp x - 52))) * pow2 (bexp x - 52)"
  by (simp add: rnd64_def Let_def)

lemma rnd64_minus: "rnd64 (- x) = - rnd64 x"
  by (simp add: rnd64_def Let_def rne_minus)

lemma rnd64_0: "rnd64 0 = 0"
  by (simp add: rnd64_def)

lemma rnd64_nonneg:
  assumes "0 \<le> x"
  shows "0 \<le> rnd64 x"
proof (cases "x = 0")
  case True
  then show ?thesis by (simp add: rnd64_0)
next
  case False
  with assms have x: "0 < x" by simp
  have "0 \<le> x / pow2 (bexp x - 52)"
    using x pow2_pos [of "bexp x - 52"] by simp
  from rne_mono [OF this] have "0 \<le> rne (x / pow2 (bexp x - 52))"
    using rne_of_int [of 0] by simp
  then show ?thesis
    using pow2_pos [of "bexp x - 52"] by (simp add: rnd64_pos [OF x])
qed

lemma pow2_split: "pow2 e = pow2 52 * pow2 (e - 52)"
  using pow2_add [of 52 "e - 52"] by simp

lemma pow2_52: "pow2 52 = of_int (2 ^ 52)" and pow2_53: "pow2 53 = of_int (2 ^ 53)"
  by (simp_all add: pow2_def)

lemma rnd64_ge_pow2:
  assumes "0 < x" and "pow2 (bexp x) \<le> x"
  shows "pow2 (bexp x) \<le> rnd64 x"
proof -
  let ?u = "pow2 (bexp x - 52)"
  have u: "0 < ?u" by (rule pow2_pos)
  have "pow2 52 * ?u \<le> x"
    using assms(2) pow2_split [of "bexp x"] by simp
  then have "pow2 52 \<le> x / ?u"
    using u by (simp add: pos_le_divide_eq)
  from rne_mono [OF this] have "2 ^ 52 \<le> rne (x / ?u)"
    unfolding pow2_52 rne_of_int .
  then have "(2 ^ 52 :: real) \<le> of_int (rne (x / ?u))"
    by (metis of_int_le_iff of_int_numeral of_int_power)
  then have "pow2 52 * ?u \<le> of_int (rne (x / ?u)) * ?u"
    using u by (simp add: pow2_52)
  then show ?thesis
    using pow2_split [of "bexp x"] by (simp add: rnd64_pos [OF assms(1)])
qed

lemma rnd64_le_pow2:
  assumes "0 < x" and "x < pow2 (bexp x + 1)"
  shows "rnd64 x \<le> pow2 (bexp x + 1)"
proof -
  let ?u = "pow2 (bexp x - 52)"
  have u: "0 < ?u" by (rule pow2_pos)
  have s: "pow2 (bexp x + 1) = pow2 53 * ?u"
    using pow2_add [of 53 "bexp x - 52"] by (simp add: add.commute)
  have "x / ?u \<le> pow2 53"
    using assms(2) u unfolding s by (simp add: pos_divide_le_eq)
  from rne_mono [OF this] have "rne (x / ?u) \<le> 2 ^ 53"
    unfolding pow2_53 rne_of_int .
  then have "of_int (rne (x / ?u)) \<le> (2 ^ 53 :: real)"
    by (metis of_int_le_iff of_int_numeral of_int_power)
  then have "of_int (rne (x / ?u)) * ?u \<le> pow2 53 * ?u"
    using u by (simp add: pow2_53)
  then show ?thesis
    unfolding s by (simp add: rnd64_pos [OF assms(1)])
qed

lemma rnd64_mono_pos:
  assumes "0 < x" and "x \<le> y"
  shows "rnd64 x \<le> rnd64 y"
proof -
  from assms have y: "0 < y" by simp
  have le: "bexp x \<le> bexp y"
    using assms(2) by (rule bexp_mono)
  show ?thesis
  proof (cases "bexp x = bexp y")
    case True
    let ?u = "pow2 (bexp y - 52)"
    have "x / ?u \<le> y / ?u"
      using assms(2) pow2_pos [of "bexp y - 52"] by (simp add: divide_right_mono)
    from rne_mono [OF this] have "of_int (rne (x / ?u)) * ?u \<le> of_int (rne (y / ?u)) * ?u"
      using pow2_pos [of "bexp y - 52"] by simp
    then show ?thesis
      by (simp add: rnd64_pos [OF assms(1)] rnd64_pos [OF y] True)
  next
    case False
    with le have lt: "bexp x < bexp y" by simp
    with bexp_range [of y] have "bexp x \<noteq> 1023" by linarith
    with bexp_upper [OF assms(1)] have "x < pow2 (bexp x + 1)" by simp
    from rnd64_le_pow2 [OF assms(1) this] have "rnd64 x \<le> pow2 (bexp x + 1)" .
    also have "\<dots> \<le> pow2 (bexp y)"
      using lt by (intro pow2_mono) simp
    also have "\<dots> \<le> rnd64 y"
    proof -
      from lt bexp_range [of x] have "bexp y \<noteq> - 1022" by linarith
      with bexp_lower [OF y] have "pow2 (bexp y) \<le> y" by simp
      from rnd64_ge_pow2 [OF y this] show ?thesis .
    qed
    finally show ?thesis .
  qed
qed

lemma rnd64_mono:
  assumes "x \<le> y"
  shows "rnd64 x \<le> rnd64 y"
proof -
  consider "0 < x" | "x \<le> 0" "0 \<le> y" | "y < 0" by linarith
  then show ?thesis
  proof cases
    case 1
    then show ?thesis using assms by (rule rnd64_mono_pos)
  next
    case 2
    from rnd64_nonneg [of "- x"] 2 have "rnd64 x \<le> 0"
      by (simp add: rnd64_minus)
    with rnd64_nonneg [OF 2(2)] show ?thesis by simp
  next
    case 3
    with assms have "0 < - y" "- y \<le> - x" by simp_all
    from rnd64_mono_pos [OF this] show ?thesis
      by (simp add: rnd64_minus)
  qed
qed

lemma rnd64_error: "\<bar>rnd64 x - x\<bar> \<le> pow2 (bexp \<bar>x\<bar> - 52) / 2"
proof (cases "x = 0")
  case True
  then show ?thesis using pow2_pos [of "bexp 0 - 52"] by (simp add: rnd64_0)
next
  case False
  let ?u = "pow2 (bexp \<bar>x\<bar> - 52)"
  have u: "0 < ?u" by (rule pow2_pos)
  have "rnd64 x - x = (of_int (rne (x / ?u)) - x / ?u) * ?u"
    using False u by (simp add: rnd64_def Let_def algebra_simps)
  then have "\<bar>rnd64 x - x\<bar> = \<bar>of_int (rne (x / ?u)) - x / ?u\<bar> * ?u"
    using u by (simp add: abs_mult)
  also have "\<dots> \<le> (1 / 2) * ?u"
    using rne_error [of "x / ?u"] u by (intro mult_right_mono) simp_all
  finally show ?thesis by simp
qed

lemma bexp_small:
  assumes "a < 4"
  shows "bexp a \<le> 1"
proof (rule ccontr)
  assume "\<not> bexp a \<le> 1"
  then have ge: "2 \<le> bexp a" by simp
  then have "1 \<le> a"
    using bexp_dn_range [of 1022 a] by (auto simp: bexp_def split: if_splits)
  then have "pow2 (bexp a) \<le> a"
    using bexp_lower [of a] ge by auto
  moreover have "pow2 2 \<le> pow2 (bexp a)"
    using ge by (rule pow2_mono)
  ultimately show False
    using assms by (simp add: pow2_def)
qed

lemma rnd64_error_small:
  assumes "\<bar>x\<bar> < 4"
  shows "\<bar>rnd64 x - x\<bar> \<le> 1 / 2 ^ 52"
proof -
  from bexp_small [OF assms] have "pow2 (bexp \<bar>x\<bar> - 52) \<le> pow2 (- 51)"
    by (intro pow2_mono) simp
  with rnd64_error [of x] have "\<bar>rnd64 x - x\<bar> \<le> pow2 (- 51) / 2"
    by linarith
  then show ?thesis
    by (simp add: pow2_def)
qed

lemma rnd64_1: "rnd64 1 = 1" and rnd64_2: "rnd64 2 = 2" and rnd64_m1: "rnd64 (- 1) = - 1"
  by (simp_all add: float_eval)

lemma frac_f_range: "0 \<le> frac_f x \<and> frac_f x \<le> 1"
proof -
  have "0 \<le> x - of_int \<lfloor>x\<rfloor>" "x - of_int \<lfloor>x\<rfloor> \<le> 1"
    by linarith+
  from rnd64_mono [OF this(1)] rnd64_mono [OF this(2)] show ?thesis
    by (simp add: frac_f_def fsub_def rnd64_0 rnd64_1)
qed

lemma unpack_range: "- 1 \<le> fadd (- 1) (fmul 2 (frac_f t)) \<and> fadd (- 1) (fmul 2 (frac_f t)) \<le> 1"
proof -
  from frac_f_range [of t] have "0 \<le> 2 * frac_f t" "2 * frac_f t \<le> 2"
    by simp_all
  from rnd64_mono [OF this(1)] rnd64_mono [OF this(2)]
  have "0 \<le> fmul 2 (frac_f t)" "fmul 2 (frac_f t) \<le> 2"
    by (simp_all add: fmul_def rnd64_0 rnd64_2)
  then have "- 1 \<le> - 1 + fmul 2 (frac_f t)" "- 1 + fmul 2 (frac_f t) \<le> 1"
    by simp_all
  from rnd64_mono [OF this(1)] rnd64_mono [OF this(2)] show ?thesis
    by (simp add: fadd_def rnd64_m1 rnd64_1)
qed

lemma float_components_abs:
  "(case decompress_normal_from_float w of
      (x, y, z) \<Rightarrow> \<bar>x\<bar> \<le> 1 \<and> \<bar>y\<bar> \<le> 1 \<and> \<bar>z\<bar> \<le> 1)"
  using unpack_range [of "fmul (rnd64 (1 / 256)) w"] unpack_range [of "fmul (rnd64 (1 / 65536)) w"]
    unpack_range [of "fmul (rnd64 (1 / 16777216)) w"]
  by (simp add: decompress_normal_from_float_def Let_def abs_le_iff)

text \<open>
  C10, amended.  For every finite float \<open>w\<close>, each of the three components returned by
  \<open>decompress_normal_from_float(w)\<close> lies in the closed interval [-1, 1]: the fractional
  part \<open>frac\<close> returns is at least 0 and at most 1, and 1 is possible, because the
  subtraction \<open>x - math.floor(x)\<close> is rounded.
\<close>

theorem float_normal_components:
  "(case decompress_normal_from_float w of
      (x, y, z) \<Rightarrow> - 1 \<le> x \<and> x \<le> 1 \<and> - 1 \<le> y \<and> y \<le> 1 \<and> - 1 \<le> z \<and> z \<le> 1)"
  using unpack_range [of "fmul (rnd64 (1 / 256)) w"] unpack_range [of "fmul (rnd64 (1 / 65536)) w"]
    unpack_range [of "fmul (rnd64 (1 / 16777216)) w"]
  by (simp add: decompress_normal_from_float_def Let_def)

text \<open>
  C10, as stated, fails: \<open>-2^-70\<close> is a binary64 number, and the first component returned
  for it is 1, outside the half-open interval.
\<close>

theorem float_normal_component_one:
  "rnd64 (- (1 / 2 ^ 70)) = - (1 / 2 ^ 70)
   \<and> fst (decompress_normal_from_float (- (1 / 2 ^ 70))) = 1"
  apply (simp add: decompress_normal_from_float_def Let_def frac_f_def)
  apply (simp add: float_eval)
  done

lemma fdiv_181_179: "fdiv 181 179 = 284619948517479 / 281474976710656"
  by (simp add: float_eval)

lemma fdiv_181_180: "fdiv 181 180 = 1132154906325083 / 1125899906842624"
  by (simp add: float_eval)

lemma scaled_range:
  assumes "- 1 \<le> t" and "t \<le> 1" and "0 \<le> c" and "rnd64 c = c"
  shows "\<bar>fmul t c\<bar> \<le> c"
proof -
  have "t * c \<le> 1 * c"
    using assms(2,3) by (rule mult_right_mono)
  moreover have "(- 1) * c \<le> t * c"
    using assms(1,3) by (rule mult_right_mono)
  ultimately have "t * c \<le> c" "- c \<le> t * c"
    by simp_all
  from rnd64_mono [OF this(1)] rnd64_mono [OF this(2)] assms(4) show ?thesis
    by (simp add: fmul_def rnd64_minus abs_le_iff)
qed


lemma y_square_bound:
  fixes x z sg :: real
  assumes x: "\<bar>x\<bar> \<le> 21 / 20" and z: "\<bar>z\<bar> \<le> 21 / 20" and sg: "\<bar>sg\<bar> \<le> 1"
  defines "d \<equiv> fsub (fsub 1 (fmul x x)) (fmul z z)"
  defines "y \<equiv> fmul sg (fsqrt (saturate d))"
  shows "x * x + y * y + z * z \<le> max (1 + 1 / 2 ^ 48) (x * x + z * z)"
proof -
  define \<delta> :: real where "\<delta> = 1 / 2 ^ 52"
  have \<delta>: "0 < \<delta>" "\<delta> \<le> 1 / 1000"
    by (simp_all add: \<delta>_def)
  have err: "\<bar>rnd64 v - v\<bar> \<le> \<delta>" if "\<bar>v\<bar> < 4" for v
    using rnd64_error_small [OF that] by (simp add: \<delta>_def)
  have X: "0 \<le> x * x" "x * x \<le> 441 / 400"
  proof -
    show "0 \<le> x * x" by simp
    have "\<bar>x\<bar> * \<bar>x\<bar> \<le> (21 / 20) * (21 / 20)"
      using x by (intro mult_mono) simp_all
    then show "x * x \<le> 441 / 400" by (simp add: abs_mult_self_eq)
  qed
  have Z: "0 \<le> z * z" "z * z \<le> 441 / 400"
  proof -
    show "0 \<le> z * z" by simp
    have "\<bar>z\<bar> * \<bar>z\<bar> \<le> (21 / 20) * (21 / 20)"
      using z by (intro mult_mono) simp_all
    then show "z * z \<le> 441 / 400" by (simp add: abs_mult_self_eq)
  qed
  define a where "a = rnd64 (x * x)"
  define b where "b = rnd64 (1 - a)"
  define c where "c = rnd64 (z * z)"
  have a: "\<bar>a - x * x\<bar> \<le> \<delta>"
    unfolding a_def by (intro err) (use X in linarith)
  have c: "\<bar>c - z * z\<bar> \<le> \<delta>"
    unfolding c_def by (intro err) (use Z in linarith)
  have b: "\<bar>b - (1 - a)\<bar> \<le> \<delta>"
    unfolding b_def by (intro err) (use a X \<delta> in linarith)
  have d: "\<bar>d - (b - c)\<bar> \<le> \<delta>"
  proof -
    have "\<bar>b - c\<bar> < 4"
      using a b c X Z \<delta> by linarith
    from err [OF this] show ?thesis
      by (simp add: d_def fsub_def fmul_def a_def b_def c_def)
  qed
  have d_le: "d \<le> 1 - x * x - z * z + 4 * \<delta>"
    using a b c d by linarith
  show ?thesis
  proof (cases "d \<le> 0")
    case True
    then have "saturate d = 0"
      by (simp add: saturate_def)
    then have "y = 0"
      by (simp add: y_def fsqrt_def fmul_def rnd64_0)
    then show ?thesis by simp
  next
    case False
    define s where "s = saturate d"
    have s: "0 \<le> s" "s \<le> 1" "s \<le> d"
      using False by (simp_all add: s_def saturate_def)
    define q where "q = sqrt s"
    have q: "0 \<le> q" "q \<le> 1" "q * q = s"
      using s by (simp_all add: q_def real_sqrt_le_1_iff)
    define r where "r = rnd64 q"
    have r: "\<bar>r - q\<bar> \<le> \<delta>"
      unfolding r_def by (intro err) (use q in linarith)
    have r0: "0 \<le> r"
      unfolding r_def using q(1) by (rule rnd64_nonneg)
    have "\<bar>sg * r\<bar> \<le> 1 * r"
      unfolding abs_mult using sg r0 by (intro mult_mono) simp_all
    then have sgr: "\<bar>sg * r\<bar> \<le> r" by simp
    have "\<bar>sg * r\<bar> < 4"
      using sgr r q \<delta> by linarith
    from err [OF this] have "\<bar>y - sg * r\<bar> \<le> \<delta>"
      by (simp add: y_def fmul_def fsqrt_def r_def q_def s_def)
    then have "\<bar>y\<bar> \<le> \<bar>sg * r\<bar> + \<delta>"
      by linarith
    with sgr r have y: "\<bar>y\<bar> \<le> q + 2 * \<delta>"
      by linarith
    have "\<bar>y\<bar> * \<bar>y\<bar> \<le> (q + 2 * \<delta>) * (q + 2 * \<delta>)"
      using y by (intro mult_mono) (use q \<delta> in simp_all)
    also have "\<dots> = s + 4 * \<delta> * q + 4 * \<delta> * \<delta>"
      using q(3) by (simp add: algebra_simps)
    also have "\<dots> \<le> s + 4 * \<delta> * 1 + 4 * \<delta> * (1 / 4)"
      using q \<delta> by (intro add_mono mult_left_mono) simp_all
    finally have "y * y \<le> s + 5 * \<delta>"
      by (simp add: abs_mult_self_eq)
    with s(3) d_le have "x * x + y * y + z * z \<le> 1 + 9 * \<delta>"
      by linarith
    also have "\<dots> \<le> 1 + 1 / 2 ^ 48"
      by (simp add: \<delta>_def)
    finally show ?thesis by simp
  qed
qed

lemma rnd64_consts:
  "rnd64 (284619948517479 / 281474976710656) = 284619948517479 / 281474976710656"
  "rnd64 (1132154906325083 / 1125899906842624) = 1132154906325083 / 1125899906842624"
  by (simp_all add: float_eval)

lemma sign_f_abs: "\<bar>sign_f w\<bar> \<le> 1"
  by (simp add: sign_f_def)

lemma int16_xz_range:
  "\<bar>fmul (fadd (- 1) (fmul 2 (frac_f t))) (fdiv 181 179)\<bar> \<le> 284619948517479 / 281474976710656"
  "\<bar>fmul (fadd (- 1) (fmul 2 (frac_f t))) (fdiv 181 180)\<bar> \<le> 1132154906325083 / 1125899906842624"
proof -
  from unpack_range [of t]
  have t: "- 1 \<le> fadd (- 1) (fmul 2 (frac_f t))" "fadd (- 1) (fmul 2 (frac_f t)) \<le> 1"
    by simp_all
  show "\<bar>fmul (fadd (- 1) (fmul 2 (frac_f t))) (fdiv 181 179)\<bar>
        \<le> 284619948517479 / 281474976710656"
    unfolding fdiv_181_179 by (rule scaled_range [OF t _ rnd64_consts(1)]) simp
  show "\<bar>fmul (fadd (- 1) (fmul 2 (frac_f t))) (fdiv 181 180)\<bar>
        \<le> 1132154906325083 / 1125899906842624"
    unfolding fdiv_181_180 by (rule scaled_range [OF t _ rnd64_consts(2)]) simp
qed

lemma square_le: "\<bar>x\<bar> \<le> c \<Longrightarrow> x * x \<le> c * c" for x c :: real
proof -
  assume "\<bar>x\<bar> \<le> c"
  then have "\<bar>x\<bar> * \<bar>x\<bar> \<le> c * c"
    by (intro mult_mono) simp_all
  then show ?thesis by (simp add: abs_mult_self_eq)
qed

text \<open>
  C6, amended.  For every input \<open>w\<close> of \<open>decompress_normal_from_int16\<close>, the returned
  vector satisfies \<open>x^2 + y^2 + z^2 \<le> max(1 + 2^-48, x^2 + z^2)\<close>, where \<open>x^2 + z^2\<close> is at
  most 2.05: the clamp makes \<open>y\<close> zero when \<open>x^2 + z^2\<close> exceeds 1, but does not bound \<open>x\<close>
  and \<open>z\<close>.  For every input of \<open>decompress_normal_from_float\<close> the sum of the squares is
  at most 3.
\<close>

theorem normal_norm_bound:
  "(case decompress_normal_from_int16 w of
      (x, y, z) \<Rightarrow> x * x + y * y + z * z \<le> max (1 + 1 / 2 ^ 48) (x * x + z * z)
                   \<and> x * x + z * z \<le> 41 / 20)
   \<and> norm_sq (decompress_normal_from_int16 w) \<le> 41 / 20
   \<and> norm_sq (decompress_normal_from_float v) \<le> 3"
proof -
  define w' where "w' = (if w = - 32768 then 0 else w)"
  define x where "x = fmul (fadd (- 1) (fmul 2 (frac_f (fmul (fdiv 1 181) (float_of_int \<bar>w'\<bar>)))))
                       (fdiv 181 179)"
  define z where "z = fmul (fadd (- 1) (fmul 2 (frac_f (fmul (fdiv (fdiv 1 181) 181)
                       (float_of_int \<bar>w'\<bar>))))) (fdiv 181 180)"
  define y where "y = fmul (sign_f w') (fsqrt (saturate (fsub (fsub 1 (fmul x x)) (fmul z z))))"
  have res: "decompress_normal_from_int16 w = (x, y, z)"
    by (simp add: decompress_normal_from_int16_def Let_def x_def y_def z_def w'_def)
  have xr: "\<bar>x\<bar> \<le> 284619948517479 / 281474976710656"
    unfolding x_def by (rule int16_xz_range)
  have zr: "\<bar>z\<bar> \<le> 1132154906325083 / 1125899906842624"
    unfolding z_def by (rule int16_xz_range)
  from xr zr have "\<bar>x\<bar> \<le> 21 / 20" "\<bar>z\<bar> \<le> 21 / 20"
    by simp_all
  from y_square_bound [OF this sign_f_abs [of w']]
  have 1: "x * x + y * y + z * z \<le> max (1 + 1 / 2 ^ 48) (x * x + z * z)"
    by (simp add: y_def)
  from square_le [OF xr] square_le [OF zr] have 2: "x * x + z * z \<le> 41 / 20"
    by simp
  have 3: "norm_sq (decompress_normal_from_float v) \<le> 3"
  proof -
    obtain p q r where f: "decompress_normal_from_float v = (p, q, r)"
      by (cases "decompress_normal_from_float v")
    with float_components_abs [of v]
    have "\<bar>p\<bar> \<le> 1" "\<bar>q\<bar> \<le> 1" "\<bar>r\<bar> \<le> 1"
      by simp_all
    from square_le [OF this(1)] square_le [OF this(2)] square_le [OF this(3)] show ?thesis
      by (simp add: f norm_sq_def)
  qed
  from 1 2 3 show ?thesis
    by (simp add: res norm_sq_def)
qed

lemma normal_0:
  "decompress_normal_from_int16 0
   = (- (284619948517479 / 281474976710656), 0, - (1132154906325083 / 1125899906842624))"
  apply (simp add: decompress_normal_from_int16_def frac_f_def sign_f_def fmul_def fadd_def
      fsub_def float_of_int_def fdiv_def)
  apply (simp add: float_eval)
  done

text \<open>
  C6, as stated, fails: for \<open>w = 0\<close> the sum of the squares is more than 2.
\<close>

theorem normal_norm_at_0:
  "2 < norm_sq (decompress_normal_from_int16 0)"
  by (simp add: normal_0 norm_sq_def)




subsection \<open>The int16 normal against the formula in real arithmetic\<close>


















end
